theory Spec2Isabelle
  imports Complex_Main "HOL-Library.Sublist" "HOL-Library.Log_Nat"
begin

section \<open>Configuration (config/settings.py)\<close>

definition MAX_RETRIES :: int where
  "MAX_RETRIES = 3"

definition RETRY_BACKOFF_FACTOR :: rat where
  "RETRY_BACKOFF_FACTOR = 1 / 2"

definition RETRY_STATUS_FORCELIST :: "int list" where
  "RETRY_STATUS_FORCELIST = [429, 500, 502, 503, 504]"

definition REQUEST_DELAY :: int where
  "REQUEST_DELAY = 3"

section \<open>The HTTP session and the world it acts on\<close>

text \<open>
  \<open>session.get\<close> either returns a response (a status code and a body) or raises a
  \<open>requests.RequestException\<close> (connection failure, timeout, malformed URL, ...).
  \<open>response.raise_for_status()\<close> raises \<open>requests.HTTPError\<close>, itself a
  \<open>RequestException\<close>, for a status in 400..599. The body type is left open: the
  retry wrapper only passes it on.
\<close>

datatype request_exception = HTTPError int | ConnectionError string

datatype 'b response = Response (status_code: int) (resp_text: 'b)

datatype 'b outcome = Returns "'b response" | Raises string

text \<open>
  The session is an oracle: the outcome of the \<open>n\<close>-th call of \<open>session.get\<close>
  (counted from 0 over the whole run) for a URL. The world records how many calls were
  made and every argument passed to \<open>time.sleep\<close>, in order.
\<close>

type_synonym 'b session = "nat \<Rightarrow> string \<Rightarrow> 'b outcome"

record world =
  calls :: nat
  sleeps :: "int list"

definition raise_for_status :: "'b response \<Rightarrow> request_exception option" where
  "raise_for_status r =
     (if 400 \<le> status_code r \<and> status_code r < 600 then Some (HTTPError (status_code r))
      else None)"

definition sleep :: "int \<Rightarrow> world \<Rightarrow> world" where
  "sleep t w = w\<lparr>sleeps := sleeps w @ [t]\<rparr>"

section \<open>The retry wrapper (UserScraper._fetch_with_retry, FinancialScraper._fetch_with_retry)\<close>

text \<open>
  The two scrapers carry the same wrapper, differing only in the class of the exception
  raised at the end. The error value keeps the parts of the message
  \<open>Failed to fetch {url} after {max_retries} attempts: {last_error}\<close>.
\<close>

datatype scraping_error =
    Failed_to_fetch string int "request_exception option"
  | Failed_to_scrape_page int scraping_error
  | User_data_scraping_failed scraping_error

text \<open>The body of the \<open>try\<close>: one call of \<open>session.get\<close> followed by \<open>raise_for_status\<close>.\<close>

definition try_get :: "'b session \<Rightarrow> string \<Rightarrow> world \<Rightarrow> (request_exception + 'b) \<times> world" where
  "try_get session url w =
     (let w1 = w\<lparr>calls := calls w + 1\<rparr> in
      case session (calls w) url of
        Raises msg \<Rightarrow> (Inl (ConnectionError msg), w1)
      | Returns r \<Rightarrow>
          (case raise_for_status r of
             Some e \<Rightarrow> (Inl e, w1)
           | None \<Rightarrow> (Inr (resp_text r), w1)))"

function fetch_loop ::
  "'b session \<Rightarrow> string \<Rightarrow> int \<Rightarrow> int \<Rightarrow> request_exception option \<Rightarrow> world
     \<Rightarrow> (scraping_error + 'b) \<times> world" where
  "fetch_loop session url max_retries retry_count last_error w =
     (if retry_count < max_retries then
        (case try_get session url w of
           (Inr body, w1) \<Rightarrow> (Inr body, w1)
         | (Inl e, w1) \<Rightarrow>
             (let retry_count' = retry_count + 1;
                  wait_time = 2 ^ nat retry_count'
              in fetch_loop session url max_retries retry_count' (Some e) (sleep wait_time w1)))
      else (Inl (Failed_to_fetch url max_retries last_error), w))"
  by pat_completeness auto

termination
  by (relation "measure (\<lambda>(session, url, max_retries, retry_count, last_error, w).
        nat (max_retries - retry_count))") auto

definition fetch_with_retry ::
  "'b session \<Rightarrow> string \<Rightarrow> int \<Rightarrow> world \<Rightarrow> (scraping_error + 'b) \<times> world" where
  "fetch_with_retry session url max_retries w = fetch_loop session url max_retries 0 None w"

text \<open>
  Whether the \<open>n\<close>-th call of the session, for this URL, makes the \<open>try\<close> body
  raise; the exception it then raises (of no meaning when the attempt succeeds); and the
  body it returns otherwise.
\<close>

definition attempt_fails :: "'b session \<Rightarrow> string \<Rightarrow> nat \<Rightarrow> bool" where
  "attempt_fails session url n =
     (case session n url of
        Raises msg \<Rightarrow> True
      | Returns r \<Rightarrow> raise_for_status r \<noteq> None)"

definition attempt_error :: "'b session \<Rightarrow> string \<Rightarrow> nat \<Rightarrow> request_exception" where
  "attempt_error session url n =
     (case session n url of
        Raises msg \<Rightarrow> ConnectionError msg
      | Returns r \<Rightarrow> HTTPError (status_code r))"

definition attempt_body :: "'b session \<Rightarrow> string \<Rightarrow> nat \<Rightarrow> 'b option" where
  "attempt_body session url n =
     (case session n url of
        Raises msg \<Rightarrow> None
      | Returns r \<Rightarrow> (if raise_for_status r = None then Some (resp_text r) else None))"

declare fetch_loop.simps [simp del]

text \<open>
  The waits slept by \<open>k\<close> consecutive failures that start from a given \<open>retry_count\<close>,
  and the number of failed attempts of a finished call, read off its result.
\<close>

definition backoffs :: "int \<Rightarrow> nat \<Rightarrow> int list" where
  "backoffs retry_count k = map (\<lambda>j. 2 ^ (nat retry_count + Suc j)) [0..<k]"

definition failed_attempts :: "(scraping_error + 'b) \<Rightarrow> world \<Rightarrow> world \<Rightarrow> nat" where
  "failed_attempts res w w' =
     (case res of Inr body \<Rightarrow> calls w' - calls w - 1 | Inl e \<Rightarrow> calls w' - calls w)"

subsection \<open>Concrete sessions\<close>

text \<open>
  A session that replays a fixed list of outcomes, as the tests' mock sessions do, and the
  world before any call.
\<close>

definition replay :: "'b outcome list \<Rightarrow> 'b session" where
  "replay outcomes n url =
     (if n < length outcomes then outcomes ! n else Raises ''no further outcome'')"

definition world0 :: world where
  "world0 = \<lparr>calls = 0, sleeps = []\<rparr>"

definition two_failures_then_page :: "string session" where
  "two_failures_then_page =
     replay [Returns (Response 503 ''busy''), Raises ''timed out'', Returns (Response 200 ''Success'')]"

definition always_failing :: "string session" where
  "always_failing n url = Returns (Response 500 ''oops'')"

definition not_found_then_page :: "string session" where
  "not_found_then_page =
     replay [Returns (Response 404 ''Not Found''), Returns (Response 200 ''page'')]"

definition not_found_twice_then_page :: "string session" where
  "not_found_twice_then_page =
     replay [Returns (Response 404 ''Not Found''), Returns (Response 404 ''Not Found''),
             Returns (Response 200 ''page'')]"

definition unavailable_then_page :: "string session" where
  "unavailable_then_page =
     replay [Returns (Response 503 ''Service Unavailable''), Returns (Response 200 ''page'')]"

section \<open>Python strings\<close>

text \<open>
  A Python \<open>str\<close> is modelled as a list of characters, ASCII only: \<open>str.lower\<close> changes
  the letters A to Z, whitespace is what \<open>str.isspace\<close> accepts below 128 (the
  codes 9 to 13 and 28 to 32), and a decimal digit is one of 0 to 9.
\<close>

definition is_space :: "char \<Rightarrow> bool" where
  "is_space c =
     ((9 \<le> (of_char c :: nat) \<and> (of_char c :: nat) \<le> 13) \<or>
      (28 \<le> (of_char c :: nat) \<and> (of_char c :: nat) \<le> 32))"

definition is_digit :: "char \<Rightarrow> bool" where
  "is_digit c = (48 \<le> (of_char c :: nat) \<and> (of_char c :: nat) \<le> 57)"

definition lower_char :: "char \<Rightarrow> char" where
  "lower_char c =
     (if 65 \<le> (of_char c :: nat) \<and> (of_char c :: nat) \<le> 90
      then char_of ((of_char c :: nat) + 32) else c)"

definition lower :: "string \<Rightarrow> string" where
  "lower s = map lower_char s"

definition strip :: "string \<Rightarrow> string" where
  "strip s = rev (dropWhile is_space (rev (dropWhile is_space s)))"

text \<open>\<open>sub in s\<close> is \<open>sublist sub s\<close>: a contiguous run of \<open>s\<close>.\<close>

text \<open>\<open>s.split()\<close>: the maximal runs of non-whitespace characters.\<close>

fun split_at :: "(char \<Rightarrow> bool) \<Rightarrow> string \<Rightarrow> string list" where
  "split_at P [] = [[]]"
| "split_at P (c # cs) =
     (if P c then [] # split_at P cs
      else (case split_at P cs of t # ts \<Rightarrow> (c # t) # ts | [] \<Rightarrow> [[c]]))"

definition split_ws :: "string \<Rightarrow> string list" where
  "split_ws s = filter (\<lambda>t. t \<noteq> []) (split_at is_space s)"

text \<open>
  \<open>s.split(sep)\<close> for a non-empty separator: the pieces between the occurrences of
  \<open>sep\<close>, found from the left without overlap. The second argument collects, reversed,
  the characters of the piece being read.
\<close>

function split_sep :: "string \<Rightarrow> string \<Rightarrow> string \<Rightarrow> string list" where
  "split_sep sep acc [] = [rev acc]"
| "split_sep sep acc (c # cs) =
     (if sep \<noteq> [] \<and> prefix sep (c # cs)
      then rev acc # split_sep sep [] (drop (length sep) (c # cs))
      else split_sep sep (c # acc) cs)"
  by pat_completeness auto

termination
  by (relation "measure (\<lambda>(sep, acc, s). length s)") auto

definition split_str :: "string \<Rightarrow> string \<Rightarrow> string list" where
  "split_str s sep = split_sep sep [] s"

text \<open>
  \<open>int(s)\<close> on a string: surrounding whitespace is dropped, one sign is allowed, and the
  digits may be grouped by single underscores. \<open>None\<close> stands for \<open>ValueError\<close>.
\<close>

definition digit_val :: "char \<Rightarrow> nat" where
  "digit_val c = of_char c - 48"

definition digits_val :: "string \<Rightarrow> nat" where
  "digits_val ds = foldl (\<lambda>n c. 10 * n + digit_val c) 0 ds"

definition int_digits :: "string \<Rightarrow> nat option" where
  "int_digits s =
     (let groups = split_at (\<lambda>c. c = CHR ''_'') s in
      if (\<forall>g \<in> set groups. g \<noteq> [] \<and> (\<forall>c \<in> set g. is_digit c))
      then Some (digits_val (concat groups)) else None)"

definition py_int :: "string \<Rightarrow> int option" where
  "py_int s =
     (case strip s of
        [] \<Rightarrow> None
      | c # cs \<Rightarrow>
          if c = CHR ''-'' then map_option (\<lambda>n. - int n) (int_digits cs)
          else if c = CHR ''+'' then map_option int (int_digits cs)
          else map_option int (int_digits (c # cs)))"

section \<open>Parsed pages\<close>

text \<open>
  BeautifulSoup is outside the repository. A page is modelled by what the scraper's
  selectors find in it: an element is the list of its text nodes in document order, a
  user item holds the elements its four sub-selectors pick (\<open>None\<close> when
  \<open>select_one\<close> finds nothing), and a page holds the user items matched by
  \<open>USER_LIST_SELECTOR\<close>, the element matched by
  \<open>a.next-page, a.pagination-next, li.next:not(.disabled) a\<close> and the element matched
  by \<open>.pagination-info\<close>.
\<close>

type_synonym element = "string list"

record user_element =
  name_elem :: "element option"
  email_elem :: "element option"
  payment_elem :: "element option"
  join_date_elem :: "element option"

record page =
  user_elements :: "user_element list"
  next_button :: "element option"
  page_info :: "element option"

text \<open>
  \<open>element.get_text(strip=True)\<close>: every text node is stripped, the empty ones are
  left out, and the rest are joined without a separator.
\<close>

definition get_text_strip :: "element \<Rightarrow> string" where
  "get_text_strip e = concat (filter (\<lambda>t. t \<noteq> []) (map strip e))"

section \<open>Python values and dictionaries\<close>

datatype pyval = VNone | VBool bool | VInt int | VFloat rat | VStr string

type_synonym dict = "string \<rightharpoonup> pyval"

text \<open>
  \<open>uuid.uuid4()\<close> and \<open>datetime.now()\<close> are oracles, indexed by the page number and
  the position of the user item on the page.
\<close>

record oracles =
  uuid4 :: "int \<Rightarrow> nat \<Rightarrow> string"
  now :: "int \<Rightarrow> nat \<Rightarrow> string"

section \<open>The page parser (UserScraper._parse_user_data, UserScraper._check_for_next_page)\<close>

definition parse_user_element :: "oracles \<Rightarrow> int \<Rightarrow> nat \<Rightarrow> user_element \<Rightarrow> dict" where
  "parse_user_element orc page_number i user_element =
     (let user = [''id'' \<mapsto> VStr (uuid4 orc page_number i),
                  ''scrape_date'' \<mapsto> VStr (now orc page_number i)];
          user = (case name_elem user_element of
                    Some elem \<Rightarrow> user(''name'' \<mapsto> VStr (get_text_strip elem))
                  | None \<Rightarrow> user);
          user = (case email_elem user_element of
                    Some elem \<Rightarrow> user(''email'' \<mapsto> VStr (get_text_strip elem))
                  | None \<Rightarrow> user);
          user = (case payment_elem user_element of
                    Some elem \<Rightarrow>
                      (let payment_text = lower (get_text_strip elem)
                       in user(''paid'' \<mapsto>
                            VBool (sublist ''paid'' payment_text \<or> sublist ''success'' payment_text)))
                  | None \<Rightarrow> user);
          user = (case join_date_elem user_element of
                    Some elem \<Rightarrow>
                      user(''join_date'' \<mapsto> VStr (get_text_strip elem))
                  | None \<Rightarrow> user)
      in user)"

datatype py_error = ValueError | IndexError

text \<open>
  The \<open>try\<close> block of \<open>_check_for_next_page\<close>:
  \<open>current = int(parts[0].strip().split()[-1])\<close>, then
  \<open>total = int(parts[1].strip().split()[0])\<close>, each step raising as Python does.
\<close>

definition index_or_raise :: "'a list \<Rightarrow> int \<Rightarrow> py_error + 'a" where
  "index_or_raise xs i =
     (if 0 \<le> i then
        (if nat i < length xs then Inr (xs ! nat i) else Inl IndexError)
      else
        (if nat (- i) \<le> length xs then Inr (xs ! (length xs - nat (- i)))
         else Inl IndexError))"

definition int_or_raise :: "string \<Rightarrow> py_error + int" where
  "int_or_raise s = (case py_int s of Some n \<Rightarrow> Inr n | None \<Rightarrow> Inl ValueError)"

definition current_and_total :: "string list \<Rightarrow> py_error + (int \<times> int)" where
  "current_and_total parts =
     (case index_or_raise parts 0 of Inl e \<Rightarrow> Inl e | Inr part0 \<Rightarrow>
      case index_or_raise (split_ws (strip part0)) (- 1) of Inl e \<Rightarrow> Inl e | Inr token0 \<Rightarrow>
      case int_or_raise token0 of Inl e \<Rightarrow> Inl e | Inr current \<Rightarrow>
      case index_or_raise parts 1 of Inl e \<Rightarrow> Inl e | Inr part1 \<Rightarrow>
      case index_or_raise (split_ws (strip part1)) 0 of Inl e \<Rightarrow> Inl e | Inr token1 \<Rightarrow>
      case int_or_raise token1 of Inl e \<Rightarrow> Inl e | Inr total' \<Rightarrow>
      Inr (current, total'))"

definition check_for_next_page :: "page \<Rightarrow> bool" where
  "check_for_next_page soup =
     (case page_info soup of
        Some info \<Rightarrow>
          (let text = get_text_strip info in
           if sublist ''of'' (lower text) then
             (case current_and_total (split_str text ''of'') of
                Inr (current, total') \<Rightarrow> current < total'
              | Inl e \<Rightarrow> next_button soup \<noteq> None)
           else next_button soup \<noteq> None)
      | None \<Rightarrow> next_button soup \<noteq> None)"

definition parse_user_data :: "oracles \<Rightarrow> page \<Rightarrow> int \<Rightarrow> dict list \<times> bool" where
  "parse_user_data orc soup page_number =
     (map (\<lambda>(i, user_element). parse_user_element orc page_number i user_element)
        (enumerate 0 (user_elements soup)),
      check_for_next_page soup)"

text \<open>
  The numbers of a pagination-info text, as the specification words them: the text is
  split on the token \<open>of\<close>; the last word before the first \<open>of\<close> and the first word
  after it must both parse as integers.
\<close>

definition pagination_numbers :: "string \<Rightarrow> (int \<times> int) option" where
  "pagination_numbers txt =
     (case split_str txt ''of'' of
        before # after # rest \<Rightarrow>
          (case (split_ws before, split_ws after) of
             (t # ts, u # us) \<Rightarrow>
               (case (py_int (last (t # ts)), py_int u) of
                  (Some current, Some total') \<Rightarrow> Some (current, total')
                | _ \<Rightarrow> None)
           | _ \<Rightarrow> None)
      | _ \<Rightarrow> None)"

subsection \<open>Concrete pages\<close>

definition oracles0 :: oracles where
  "oracles0 = \<lparr>uuid4 = (\<lambda>p i. ''00000000-0000-4000-8000-000000000000''),
               now = (\<lambda>p i. ''2023-07-01T00:00:00'')\<rparr>"

definition user_item :: "string \<Rightarrow> string \<Rightarrow> string \<Rightarrow> string \<Rightarrow> user_element" where
  "user_item name email payment join_date =
     \<lparr>name_elem = Some [name], email_elem = Some [email], payment_elem = Some [payment],
      join_date_elem = Some [join_date]\<rparr>"

text \<open>The page \<open>USER_LIST_HTML\<close> of tests/test_scraper.py.\<close>

definition USER_LIST_HTML :: page where
  "USER_LIST_HTML =
     \<lparr>user_elements =
        [user_item ''John Doe'' ''john@example.com'' ''Paid'' ''2023-05-15'',
         user_item ''Jane Smith'' ''jane@example.com'' ''Pending'' ''2023-06-20''],
      next_button = None, page_info = None\<rparr>"

definition unpaid_item :: user_element where
  "unpaid_item = user_item ''Una Paid'' ''una@example.com'' ''Unpaid'' ''2023-06-21''"

definition page_1_of_5 :: page where
  "page_1_of_5 = \<lparr>user_elements = [], next_button = None, page_info = Some ['' Page 1 of 5 '']\<rparr>"

definition page_5_of_5_with_next :: page where
  "page_5_of_5_with_next =
     \<lparr>user_elements = [], next_button = Some [''Next''], page_info = Some [''Page 5 of 5'']\<rparr>"

definition page_unparsable_info :: page where
  "page_unparsable_info =
     \<lparr>user_elements = [], next_button = Some [''Next''], page_info = Some [''Lots of users'']\<rparr>"

section \<open>Post-processing of user records (UserScraper._process_user_data)\<close>

text \<open>The truth value Python gives a value in a condition.\<close>

fun truthy :: "pyval \<Rightarrow> bool" where
  "truthy VNone = False"
| "truthy (VBool b) = b"
| "truthy (VInt i) = (i \<noteq> 0)"
| "truthy (VFloat x) = (x \<noteq> 0)"
| "truthy (VStr s) = (s \<noteq> [])"

definition is_upper :: "char \<Rightarrow> bool" where
  "is_upper c = (65 \<le> (of_char c :: nat) \<and> (of_char c :: nat) \<le> 90)"

definition is_lower :: "char \<Rightarrow> bool" where
  "is_lower c = (97 \<le> (of_char c :: nat) \<and> (of_char c :: nat) \<le> 122)"

definition upper_char :: "char \<Rightarrow> char" where
  "upper_char c = (if is_lower c then char_of ((of_char c :: nat) - 32) else c)"

text \<open>
  \<open>str.title\<close>: a letter that follows a letter is lower-cased, any other letter is
  upper-cased. The flag tells whether the previous character was a letter.
\<close>

fun title_from :: "bool \<Rightarrow> string \<Rightarrow> string" where
  "title_from previous_is_cased [] = []"
| "title_from previous_is_cased (c # cs) =
     (if is_lower c then
        (if previous_is_cased then c else upper_char c) # title_from True cs
      else if is_upper c then
        (if previous_is_cased then lower_char c else c) # title_from True cs
      else c # title_from False cs)"

definition title :: "string \<Rightarrow> string" where
  "title s = title_from False s"

definition date_formats :: "string list" where
  "date_formats =
     [''%Y-%m-%d'', ''%d/%m/%Y'', ''%m/%d/%Y'', ''%b %d, %Y'', ''%d %b %Y'', ''%B %d, %Y'',
      ''%Y-%m-%d %H:%M:%S'']"

text \<open>
  \<open>datetime.strptime\<close> belongs to Python's library: \<open>strptime s fmt\<close> is the ISO
  form of the date parsed from \<open>s\<close> under \<open>fmt\<close>, or \<open>None\<close> for \<open>ValueError\<close>.
  The loop over the formats keeps the first that parses.
\<close>

fun first_format :: "(string \<Rightarrow> string \<Rightarrow> string option) \<Rightarrow> string \<Rightarrow> string list \<Rightarrow> string option" where
  "first_format strptime s [] = None"
| "first_format strptime s (date_format # rest) =
     (case strptime s date_format of
        Some join_date \<Rightarrow> Some join_date
      | None \<Rightarrow> first_format strptime s rest)"

definition validate_user_record :: "dict \<Rightarrow> bool" where
  "validate_user_record user =
     (let required_fields = [''id'', ''scrape_date''];
          identifying_fields = [''name'', ''email''];
          has_identifier =
            list_ex (\<lambda>field. case user field of Some v \<Rightarrow> truthy v | None \<Rightarrow> False)
              identifying_fields;
          has_required = list_all (\<lambda>field. user field \<noteq> None) required_fields
      in has_required \<and> has_identifier)"

text \<open>
  One turn of the loop of \<open>_process_user_data\<close>, step by step. A step that can raise
  (\<open>strip\<close> called on a name or an email that is not a string) gives \<open>None\<close>: the
  outer \<open>except\<close> catches the exception and the record is not appended.
\<close>

definition clean_name :: "dict \<Rightarrow> dict option" where
  "clean_name processed_user =
     (case processed_user ''name'' of
        None \<Rightarrow> Some processed_user
      | Some (VStr name) \<Rightarrow> Some (processed_user(''name'' \<mapsto> VStr (title (strip name))))
      | Some other \<Rightarrow> None)"

definition clean_email :: "dict \<Rightarrow> dict option" where
  "clean_email processed_user =
     (case processed_user ''email'' of
        None \<Rightarrow> Some processed_user
      | Some (VStr email) \<Rightarrow> Some (processed_user(''email'' \<mapsto> VStr (lower (strip email))))
      | Some other \<Rightarrow> None)"

definition standardize_paid :: "dict \<Rightarrow> dict" where
  "standardize_paid processed_user =
     (case processed_user ''paid'' of
        Some (VStr paid) \<Rightarrow>
          processed_user(''paid'' \<mapsto>
            VBool (lower paid \<in> set [''true'', ''yes'', ''paid'', ''success'', ''1'']))
      | _ \<Rightarrow> processed_user)"

definition process_join_date :: "(string \<Rightarrow> string \<Rightarrow> string option) \<Rightarrow> dict \<Rightarrow> dict" where
  "process_join_date strptime processed_user =
     (case processed_user ''join_date'' of
        Some (VStr s) \<Rightarrow>
          (if s \<noteq> [] then
             (case first_format strptime s date_formats of
                Some join_date \<Rightarrow> processed_user(''join_date'' \<mapsto> VStr join_date)
              | None \<Rightarrow> processed_user)
           else processed_user)
      | _ \<Rightarrow> processed_user)"

definition flag_email_valid :: "dict \<Rightarrow> dict" where
  "flag_email_valid processed_user =
     (case processed_user ''email'' of
        Some (VStr email) \<Rightarrow>
          (if email \<noteq> [] then
             (if \<not> sublist ''@'' email \<or> \<not> sublist ''.'' email
              then processed_user(''email_valid'' \<mapsto> VBool False)
              else processed_user(''email_valid'' \<mapsto> VBool True))
           else processed_user)
      | _ \<Rightarrow> processed_user)"

text \<open>
  The whole turn: \<open>None\<close> also when the record is not valid and is skipped.
  \<open>timestamp\<close> is the value of \<open>datetime.now().isoformat()\<close> for this record.
\<close>

definition process_user ::
  "(string \<Rightarrow> string \<Rightarrow> string option) \<Rightarrow> string \<Rightarrow> dict \<Rightarrow> dict option" where
  "process_user strptime timestamp user =
     (case clean_name user of
        None \<Rightarrow> None
      | Some user1 \<Rightarrow>
          (case clean_email user1 of
             None \<Rightarrow> None
           | Some user2 \<Rightarrow>
               (let processed_user =
                      (flag_email_valid (process_join_date strptime (standardize_paid user2)))
                        (''processed_timestamp'' \<mapsto> VStr timestamp)
                in if validate_user_record processed_user then Some processed_user else None)))"

definition process_user_data ::
  "(string \<Rightarrow> string \<Rightarrow> string option) \<Rightarrow> (nat \<Rightarrow> string) \<Rightarrow> dict list \<Rightarrow> dict list" where
  "process_user_data strptime timestamps user_data =
     List.map_filter (\<lambda>(i, user). process_user strptime (timestamps i) user)
       (enumerate 0 user_data)"

section \<open>The paginator (UserScraper._scrape_with_requests)\<close>

definition COURSE_URL :: string where
  "COURSE_URL = ''https://harkirat.classx.co.in/new-courses/8-live-0-100-complete''"

function str_nat :: "nat \<Rightarrow> string" where
  "str_nat n =
     (if n < 10 then [char_of (48 + n)] else str_nat (n div 10) @ [char_of (48 + n mod 10)])"
  by pat_completeness auto

termination
  by (relation "measure (\<lambda>n. n)") auto

definition str_int :: "int \<Rightarrow> string" where
  "str_int i = (if i < 0 then CHR ''-'' # str_nat (nat (- i)) else str_nat (nat i))"

definition page_url :: "int \<Rightarrow> string" where
  "page_url current_page = COURSE_URL @ ''?page='' @ str_int current_page"

text \<open>
  The \<open>while has_next_page\<close> loop. It need not end (every page may announce a next
  one), so it runs on fuel, one unit per turn: \<open>None\<close> means the fuel ran out before
  the loop ended. Any exception inside the turn is re-raised as
  \<open>UserScrapingError(Failed to scrape page ...)\<close>; \<open>_save_raw_html\<close> catches its own
  exceptions and does not touch the result, so it is left out.
\<close>

fun scrape_loop ::
  "nat \<Rightarrow> oracles \<Rightarrow> page session \<Rightarrow> int \<Rightarrow> int \<Rightarrow> dict list \<Rightarrow> world
     \<Rightarrow> ((scraping_error + dict list) \<times> world) option" where
  "scrape_loop 0 orc session max_retries current_page user_data w = None"
| "scrape_loop (Suc fuel) orc session max_retries current_page user_data w =
     (case fetch_with_retry session (page_url current_page) max_retries w of
        (Inl e, w1) \<Rightarrow> Some (Inl (Failed_to_scrape_page current_page e), w1)
      | (Inr content, w1) \<Rightarrow>
          (case parse_user_data orc content current_page of
             (page_user_data, has_next_page) \<Rightarrow>
               if has_next_page then
                 scrape_loop fuel orc session max_retries (current_page + 1)
                   (user_data @ page_user_data) (sleep REQUEST_DELAY w1)
               else Some (Inr (user_data @ page_user_data), w1)))"

definition scrape_with_requests ::
  "nat \<Rightarrow> oracles \<Rightarrow> (string \<Rightarrow> string \<Rightarrow> string option) \<Rightarrow> (nat \<Rightarrow> string) \<Rightarrow> page session
     \<Rightarrow> int \<Rightarrow> world \<Rightarrow> ((scraping_error + dict list) \<times> world) option" where
  "scrape_with_requests fuel orc strptime timestamps session max_retries w =
     (case scrape_loop fuel orc session max_retries 1 [] w of
        None \<Rightarrow> None
      | Some (Inl e, w1) \<Rightarrow> Some (Inl e, w1)
      | Some (Inr user_data, w1) \<Rightarrow>
          Some (Inr (process_user_data strptime timestamps user_data), w1))"

text \<open>
  \<open>scrape(use_selenium=False)\<close> re-raises whatever escapes as
  \<open>UserScrapingError(User data scraping failed: ...)\<close>.
\<close>

definition scrape ::
  "nat \<Rightarrow> oracles \<Rightarrow> (string \<Rightarrow> string \<Rightarrow> string option) \<Rightarrow> (nat \<Rightarrow> string) \<Rightarrow> page session
     \<Rightarrow> int \<Rightarrow> world \<Rightarrow> ((scraping_error + dict list) \<times> world) option" where
  "scrape fuel orc strptime timestamps session max_retries w =
     (case scrape_with_requests fuel orc strptime timestamps session max_retries w of
        None \<Rightarrow> None
      | Some (Inl e, w1) \<Rightarrow> Some (Inl (User_data_scraping_failed e), w1)
      | Some (Inr processed_data, w1) \<Rightarrow> Some (Inr processed_data, w1))"

text \<open>
  The state of the loop after \<open>k\<close> turns that each fetched their page and found a next
  one: the page to fetch, the records accumulated and the world. \<open>None\<close> when one of
  these turns failed or ended the loop.
\<close>

fun pages_collected ::
  "nat \<Rightarrow> oracles \<Rightarrow> page session \<Rightarrow> int \<Rightarrow> int \<Rightarrow> dict list \<Rightarrow> world
     \<Rightarrow> (int \<times> dict list \<times> world) option" where
  "pages_collected 0 orc session max_retries current_page user_data w =
     Some (current_page, user_data, w)"
| "pages_collected (Suc k) orc session max_retries current_page user_data w =
     (case fetch_with_retry session (page_url current_page) max_retries w of
        (Inl e, w1) \<Rightarrow> None
      | (Inr content, w1) \<Rightarrow>
          (case parse_user_data orc content current_page of
             (page_user_data, has_next_page) \<Rightarrow>
               if has_next_page then
                 pages_collected k orc session max_retries (current_page + 1)
                   (user_data @ page_user_data) (sleep REQUEST_DELAY w1)
               else None))"

subsection \<open>Concrete runs\<close>

definition page_with_next :: page where
  "page_with_next =
     \<lparr>user_elements = [user_item ''John Doe'' ''john@example.com'' ''Paid'' ''2023-05-15''],
      next_button = Some [''Next''], page_info = None\<rparr>"

text \<open>The first page arrives at once; every later call of the session fails.\<close>

definition one_page_then_down :: "page session" where
  "one_page_then_down n url =
     (if n = 0 then Returns (Response 200 page_with_next) else Raises ''connection refused'')"

definition no_strptime :: "string \<Rightarrow> string \<Rightarrow> string option" where
  "no_strptime s date_format = None"

definition timestamps0 :: "nat \<Rightarrow> string" where
  "timestamps0 i = ''2023-07-01T00:00:01''"

section \<open>Data models (src/models/data_models.py)\<close>

text \<open>
  \<open>ValidationError\<close> is modelled without its message: the message depends on the order
  in which Python walks a set of field names.
\<close>

datatype validation_error = ValidationError

datatype pytype = TStr | TBool | TInt | TFloat

text \<open>\<open>isinstance\<close>: in Python \<open>bool\<close> is a subclass of \<open>int\<close>.\<close>

fun isinstance :: "pyval \<Rightarrow> pytype \<Rightarrow> bool" where
  "isinstance (VStr s) TStr = True"
| "isinstance (VBool b) TBool = True"
| "isinstance (VBool b) TInt = True"
| "isinstance (VInt i) TInt = True"
| "isinstance (VFloat x) TFloat = True"
| "isinstance v t = False"

text \<open>
  The type loop of \<open>BaseModel.validate\<close>, walked along the class's \<open>field_types\<close>:
  a field that is absent or \<open>None\<close> is skipped, a value for a string field is replaced
  by \<open>str(value)\<close>, and any other value of the wrong type is an error. \<open>py_str\<close> is
  Python's \<open>str\<close> on values.
\<close>

fun check_field_types ::
  "(string \<times> pytype) list \<Rightarrow> (pyval \<Rightarrow> string) \<Rightarrow> dict \<Rightarrow> validation_error + dict" where
  "check_field_types [] py_str data = Inr data"
| "check_field_types ((field, expected_type) # rest) py_str data =
     (case data field of
        None \<Rightarrow> check_field_types rest py_str data
      | Some VNone \<Rightarrow> check_field_types rest py_str data
      | Some v \<Rightarrow>
          if expected_type = TStr \<and> \<not> isinstance v TStr
          then check_field_types rest py_str (data(field \<mapsto> VStr (py_str v)))
          else if \<not> isinstance v expected_type then Inl ValidationError
          else check_field_types rest py_str data)"

definition BaseModel_validate ::
  "string list \<Rightarrow> (string \<times> pytype) list \<Rightarrow> (pyval \<Rightarrow> string) \<Rightarrow> dict
     \<Rightarrow> validation_error + dict" where
  "BaseModel_validate required_fields field_types py_str data =
     (if list_ex (\<lambda>field. data field = None) required_fields then Inl ValidationError
      else check_field_types field_types py_str data)"

subsection \<open>User\<close>

definition User_required_fields :: "string list" where
  "User_required_fields = [''id'', ''created_at'', ''scrape_date'', ''paid'']"

definition User_field_types :: "(string \<times> pytype) list" where
  "User_field_types =
     [(''id'', TStr), (''created_at'', TStr), (''name'', TStr), (''email'', TStr),
      (''paid'', TBool), (''join_date'', TStr), (''scrape_date'', TStr)]"

text \<open>
  \<open>re.match(r"[^@]+@[^@]+\.[^@]+", email)\<close>: some prefix of the string is a non-empty
  run without \<open>@\<close>, an \<open>@\<close>, and then a run without \<open>@\<close> that has a dot neither at
  its start nor at its end.
\<close>

definition email_matches :: "string \<Rightarrow> bool" where
  "email_matches email =
     (let local_part = takeWhile (\<lambda>c. c \<noteq> CHR ''@'') email;
          rest = dropWhile (\<lambda>c. c \<noteq> CHR ''@'') email;
          domain_part = takeWhile (\<lambda>c. c \<noteq> CHR ''@'') (tl rest)
      in local_part \<noteq> [] \<and> rest \<noteq> [] \<and>
         list_ex (\<lambda>i. domain_part ! i = CHR ''.'') [1..<length domain_part - 1])"

definition User_paid_from_text :: "string \<Rightarrow> bool" where
  "User_paid_from_text paid =
     (let paid_text = lower paid
      in paid_text = ''true'' \<or> paid_text = ''yes'' \<or> paid_text = ''1'')"

definition User_validate :: "(pyval \<Rightarrow> string) \<Rightarrow> dict \<Rightarrow> validation_error + dict" where
  "User_validate py_str data =
     (case BaseModel_validate User_required_fields User_field_types py_str data of
        Inl e \<Rightarrow> Inl e
      | Inr data1 \<Rightarrow>
          if (case data1 ''email'' of
                Some (VStr email) \<Rightarrow> email \<noteq> [] \<and> \<not> email_matches email
              | _ \<Rightarrow> False)
          then Inl ValidationError
          else Inr (case data1 ''paid'' of
                      Some (VStr paid) \<Rightarrow> data1(''paid'' \<mapsto> VBool (User_paid_from_text paid))
                    | _ \<Rightarrow> data1))"

text \<open>
  \<open>User(**kwargs)\<close>: an identifier and a creation time are generated when absent, the
  values are validated, and the validated values become the attributes.
\<close>

definition User_init ::
  "(pyval \<Rightarrow> string) \<Rightarrow> string \<Rightarrow> string \<Rightarrow> dict \<Rightarrow> validation_error + dict" where
  "User_init py_str new_id created kwargs =
     (let kwargs1 = (if kwargs ''id'' = None then kwargs(''id'' \<mapsto> VStr new_id) else kwargs);
          kwargs2 = (if kwargs1 ''created_at'' = None
                     then kwargs1(''created_at'' \<mapsto> VStr created) else kwargs1)
      in User_validate py_str kwargs2)"

subsection \<open>Concrete records\<close>

text \<open>A raw user record whose payment status is still a string.\<close>

definition raw_user :: "string \<Rightarrow> dict" where
  "raw_user paid =
     [''id'' \<mapsto> VStr ''123'', ''scrape_date'' \<mapsto> VStr ''2023-07-01T00:00:00'',
      ''name'' \<mapsto> VStr ''john doe'', ''paid'' \<mapsto> VStr paid]"

section \<open>Numbers\<close>

text \<open>
  A Python \<open>float\<close> is an IEEE double, modelled by the rational number it stands for.
  Every operation on floats gives the exact result rounded to the nearest double, a tie
  going to the even mantissa: \<open>to_double\<close> keeps 53 significant bits. The exponent is
  not bounded, so overflow, subnormal numbers, infinities and NaN are outside the model.
\<close>

definition round_half_even :: "rat \<Rightarrow> int" where
  "round_half_even y =
     (let f = \<lfloor>y\<rfloor>; d = y - of_int f
      in if d < 1 / 2 then f else if 1 / 2 < d then f + 1 else if even f then f else f + 1)"

text \<open>The exponent \<open>e\<close> with \<open>2 ^ e \<le> |x| < 2 ^ (e + 1)\<close>, for \<open>x\<close> other than 0.\<close>

definition binary_exponent :: "rat \<Rightarrow> int" where
  "binary_exponent x =
     (case quotient_of \<bar>x\<bar> of
        (p, q) \<Rightarrow>
          (let e = bitlen p - bitlen q
           in if power_int 2 e \<le> \<bar>x\<bar> then e else e - 1))"

definition to_double :: "rat \<Rightarrow> rat" where
  "to_double x =
     (if x = 0 then 0
      else (let ulp = power_int 2 (binary_exponent x - 52)
            in of_int (round_half_even (x / ulp)) * ulp))"

text \<open>
  \<open>float(n)\<close> of an integer, \<open>x / y\<close> and \<open>x * y\<close> on floats, and \<open>p / q\<close> on two
  integers, which Python rounds once from the exact quotient.
\<close>

definition float_of_int :: "int \<Rightarrow> rat" where
  "float_of_int n = to_double (of_int n)"

definition float_div :: "rat \<Rightarrow> rat \<Rightarrow> rat" where
  "float_div x y = to_double (x / y)"

definition float_mul :: "rat \<Rightarrow> rat \<Rightarrow> rat" where
  "float_mul x y = to_double (x * y)"

definition int_truediv :: "int \<Rightarrow> int \<Rightarrow> rat" where
  "int_truediv p q = to_double (of_int p / of_int q)"

text \<open>
  \<open>round(x, 2)\<close> on a float: the exact value of \<open>x\<close> is rounded to two decimals, a
  tie going to the even neighbour, and the double nearest to that decimal is returned.
\<close>

definition py_round2 :: "rat \<Rightarrow> rat" where
  "py_round2 x = to_double (of_int (round_half_even (x * 100)) / 100)"

text \<open>
  \<open>float(s)\<close> for a string made of digits and dots only: at most one dot and at least
  one digit; the result is the double nearest to the decimal. \<open>None\<close> stands for
  \<open>ValueError\<close>.
\<close>

definition float_of_digits_and_dots :: "string \<Rightarrow> rat option" where
  "float_of_digits_and_dots s =
     (case split_at (\<lambda>c. c = CHR ''.'') s of
        [whole] \<Rightarrow>
          if whole \<noteq> [] \<and> list_all is_digit whole
          then Some (to_double (of_nat (digits_val whole)))
          else None
      | [whole, fraction] \<Rightarrow>
          if (whole \<noteq> [] \<or> fraction \<noteq> []) \<and> list_all is_digit whole \<and> list_all is_digit fraction
          then Some (to_double
                 (of_nat (digits_val whole) + of_nat (digits_val fraction) / 10 ^ length fraction))
          else None
      | _ \<Rightarrow> None)"

section \<open>The financial scraper (src/scrapers/financial_scraper.py)\<close>

text \<open>
  \<open>re.sub(r'[^\d.]', '', currency_string)\<close> keeps the digits and the dots; \<open>float\<close> of
  the rest is returned, and 0.0 when \<open>float\<close> raises \<open>ValueError\<close>.
\<close>

definition digits_and_dots :: "string \<Rightarrow> string" where
  "digits_and_dots currency_string = filter (\<lambda>c. is_digit c \<or> c = CHR ''.'') currency_string"

definition convert_currency_to_float :: "string \<Rightarrow> rat" where
  "convert_currency_to_float currency_string =
     (let cleaned = digits_and_dots currency_string
      in case float_of_digits_and_dots cleaned of
           Some x \<Rightarrow> x
         | None \<Rightarrow> 0)"

text \<open>
  The analytics page, by what the four metric selectors find in it.
\<close>

record financial_page =
  total_users_elem :: "element option"
  paid_users_elem :: "element option"
  total_gmv_elem :: "element option"
  total_profit_elem :: "element option"

definition extract_metric :: "element option \<Rightarrow> dict \<Rightarrow> string \<Rightarrow> bool \<Rightarrow> dict" where
  "extract_metric element data key convert_to_float =
     (case element of
        None \<Rightarrow> data
      | Some e \<Rightarrow>
          (let v = get_text_strip e in
           if convert_to_float then data(key \<mapsto> VFloat (convert_currency_to_float v))
           else (case py_int (filter (\<lambda>c. c \<noteq> CHR '','') v) of
                   Some n \<Rightarrow> data(key \<mapsto> VInt n)
                 | None \<Rightarrow> data(key \<mapsto> VStr v))))"

text \<open>
  The number a value stands for in arithmetic and comparisons with numbers; \<open>None\<close>
  where Python raises \<open>TypeError\<close>.
\<close>

fun num :: "pyval \<Rightarrow> rat option" where
  "num (VInt i) = Some (of_int i)"
| "num (VFloat x) = Some x"
| "num (VBool b) = Some (if b then 1 else 0)"
| "num v = None"

text \<open>
  The integer a value is when it is an \<open>int\<close> (a \<open>bool\<close> included), the float it
  becomes in arithmetic with a float, and Python's \<open>a / b\<close> on numbers: two integers
  are divided exactly and rounded once, otherwise both become floats. \<open>None\<close> stands
  for \<open>TypeError\<close>.
\<close>

fun int_value :: "pyval \<Rightarrow> int option" where
  "int_value (VInt i) = Some i"
| "int_value (VBool b) = Some (if b then 1 else 0)"
| "int_value v = None"

fun float_value :: "pyval \<Rightarrow> rat option" where
  "float_value (VFloat x) = Some x"
| "float_value v = map_option float_of_int (int_value v)"

definition py_truediv :: "pyval \<Rightarrow> pyval \<Rightarrow> rat option" where
  "py_truediv a b =
     (case (int_value a, int_value b) of
        (Some p, Some q) \<Rightarrow> Some (int_truediv p q)
      | _ \<Rightarrow>
          (case (float_value a, float_value b) of
             (Some x, Some y) \<Rightarrow> Some (float_div x y)
           | _ \<Rightarrow> None))"

text \<open>
  \<open>FinancialScraper._calculate_derived_metrics\<close>: the two computations run in one
  \<open>try\<close>; an exception (a count that is still a string) ends it with what was stored
  so far.
\<close>

definition scraper_calculate_derived_metrics :: "dict \<Rightarrow> dict" where
  "scraper_calculate_derived_metrics data =
     (case data ''paid_users'' of
        None \<Rightarrow> data
      | Some paid_users \<Rightarrow>
     (case num paid_users of
        None \<Rightarrow> data
      | Some p \<Rightarrow>
          (case (if p > 0
                 then (case data ''total_gmv'' of
                         None \<Rightarrow> None
                       | Some total_gmv \<Rightarrow>
                           (case py_truediv total_gmv paid_users of
                              Some average \<Rightarrow>
                                Some (data(''avg_revenue_per_user'' \<mapsto> VFloat (py_round2 average)))
                            | None \<Rightarrow> None))
                 else Some data) of
             None \<Rightarrow> data
           | Some data1 \<Rightarrow>
               (case data1 ''total_users'' of
                  None \<Rightarrow> data1
                | Some total_users \<Rightarrow>
               (case num total_users of
                  None \<Rightarrow> data1
                | Some t \<Rightarrow>
                    if t > 0
                    then (case py_truediv paid_users total_users of
                            Some ratio \<Rightarrow>
                              data1(''conversion_rate'' \<mapsto>
                                VFloat (py_round2 (float_mul ratio (float_of_int 100))))
                          | None \<Rightarrow> data1)
                    else data1)))))"

definition parse_financial_data :: "string \<Rightarrow> financial_page \<Rightarrow> dict" where
  "parse_financial_data timestamp soup =
     (let financial_data =
            [''total_users'' \<mapsto> VInt 0, ''paid_users'' \<mapsto> VInt 0, ''total_gmv'' \<mapsto> VFloat 0,
             ''total_profit'' \<mapsto> VFloat 0, ''avg_revenue_per_user'' \<mapsto> VFloat 0,
             ''conversion_rate'' \<mapsto> VFloat 0, ''timestamp'' \<mapsto> VStr timestamp];
          financial_data = extract_metric (total_users_elem soup) financial_data ''total_users'' False;
          financial_data = extract_metric (paid_users_elem soup) financial_data ''paid_users'' False;
          financial_data = extract_metric (total_gmv_elem soup) financial_data ''total_gmv'' True;
          financial_data = extract_metric (total_profit_elem soup) financial_data ''total_profit'' True
      in scraper_calculate_derived_metrics financial_data)"

section \<open>FinancialMetrics (src/models/data_models.py)\<close>

text \<open>
  A validated instance: the required numeric attributes are always there, the derived
  ones only once given or computed.
\<close>

record financial_metrics =
  total_users :: int
  paid_users :: int
  total_gmv :: rat
  total_profit :: rat
  avg_revenue_per_user :: "rat option"
  conversion_rate :: "rat option"

definition calculate_derived_metrics :: "financial_metrics \<Rightarrow> financial_metrics" where
  "calculate_derived_metrics self =
     (let self1 =
            (if paid_users self > 0
             then self\<lparr>avg_revenue_per_user :=
                         Some (py_round2 (float_div (total_gmv self) (float_of_int (paid_users self))))\<rparr>
             else self\<lparr>avg_revenue_per_user := Some 0\<rparr>)
      in if total_users self1 > 0
         then self1\<lparr>conversion_rate :=
                      Some (py_round2 (float_mul (int_truediv (paid_users self1) (total_users self1))
                                         (float_of_int 100)))\<rparr>
         else self1\<lparr>conversion_rate := Some 0\<rparr>)"

subsection \<open>Concrete financial data\<close>

text \<open>The page \<open>FINANCIAL_DATA_HTML\<close> of tests/test_scraper.py.\<close>

definition FINANCIAL_DATA_HTML :: financial_page where
  "FINANCIAL_DATA_HTML =
     \<lparr>total_users_elem = Some [''500''], paid_users_elem = Some [''350''],
      total_gmv_elem = Some [''$50,000''], total_profit_elem = Some [''$35,000'']\<rparr>"

definition example_metrics :: financial_metrics where
  "example_metrics =
     \<lparr>total_users = 500, paid_users = 350, total_gmv = convert_currency_to_float ''$50,000'',
      total_profit = convert_currency_to_float ''$35,000'',
      avg_revenue_per_user = None, conversion_rate = None\<rparr>"

subsection \<open>FinancialMetrics.validate\<close>

definition FinancialMetrics_required_fields :: "string list" where
  "FinancialMetrics_required_fields =
     [''id'', ''created_at'', ''total_users'', ''paid_users'', ''total_gmv'', ''total_profit'',
      ''timestamp'']"

definition FinancialMetrics_field_types :: "(string \<times> pytype) list" where
  "FinancialMetrics_field_types =
     [(''id'', TStr), (''created_at'', TStr), (''total_users'', TInt), (''paid_users'', TInt),
      (''total_gmv'', TFloat), (''total_profit'', TFloat), (''avg_revenue_per_user'', TFloat),
      (''conversion_rate'', TFloat), (''timestamp'', TStr), (''processed_at'', TStr)]"

text \<open>
  \<open>int(v)\<close> and \<open>float(v)\<close> on a value, \<open>None\<close> standing for the \<open>ValueError\<close> or
  \<open>TypeError\<close> that \<open>validate\<close> turns into \<open>ValidationError\<close>. \<open>int\<close> cuts a
  float towards zero. \<open>float\<close> on a string is Python's parser, taken as a parameter
  \<open>float_of_str\<close>.
\<close>

fun py_int_of :: "pyval \<Rightarrow> pyval option" where
  "py_int_of (VStr s) = map_option VInt (py_int s)"
| "py_int_of (VFloat x) = Some (VInt (if 0 \<le> x then \<lfloor>x\<rfloor> else \<lceil>x\<rceil>))"
| "py_int_of (VInt i) = Some (VInt i)"
| "py_int_of (VBool b) = Some (VInt (if b then 1 else 0))"
| "py_int_of VNone = None"

fun py_float_of :: "(string \<Rightarrow> rat option) \<Rightarrow> pyval \<Rightarrow> pyval option" where
  "py_float_of float_of_str (VStr s) = map_option VFloat (float_of_str s)"
| "py_float_of float_of_str (VFloat x) = Some (VFloat x)"
| "py_float_of float_of_str (VInt i) = Some (VFloat (of_int i))"
| "py_float_of float_of_str (VBool b) = Some (VFloat (if b then 1 else 0))"
| "py_float_of float_of_str VNone = None"

text \<open>
  One conversion step: a field that is present and not yet of the wanted type is
  converted in place, or the validation fails.
\<close>

definition convert_field ::
  "pytype \<Rightarrow> (pyval \<Rightarrow> pyval option) \<Rightarrow> string \<Rightarrow> dict \<Rightarrow> validation_error + dict" where
  "convert_field wanted convert field data =
     (case data field of
        None \<Rightarrow> Inr data
      | Some v \<Rightarrow>
          if isinstance v wanted then Inr data
          else (case convert v of
                  Some v' \<Rightarrow> Inr (data(field \<mapsto> v'))
                | None \<Rightarrow> Inl ValidationError))"

fun convert_fields ::
  "pytype \<Rightarrow> (pyval \<Rightarrow> pyval option) \<Rightarrow> string list \<Rightarrow> dict \<Rightarrow> validation_error + dict" where
  "convert_fields wanted convert [] data = Inr data"
| "convert_fields wanted convert (field # rest) data =
     (case convert_field wanted convert field data of
        Inl e \<Rightarrow> Inl e
      | Inr data1 \<Rightarrow> convert_fields wanted convert rest data1)"

text \<open>
  The comparisons of the last part of \<open>validate\<close>. After the conversions and the type
  check the values compared are numbers, so the comparison itself cannot raise.
\<close>

definition is_negative :: "pyval option \<Rightarrow> bool" where
  "is_negative v = (case v of Some x \<Rightarrow> (case num x of Some r \<Rightarrow> r < 0 | None \<Rightarrow> False) | None \<Rightarrow> False)"

definition rate_out_of_range :: "pyval option \<Rightarrow> bool" where
  "rate_out_of_range v =
     (case v of
        Some x \<Rightarrow> (case num x of Some rate \<Rightarrow> rate < 0 \<or> rate > 100 | None \<Rightarrow> False)
      | None \<Rightarrow> False)"

definition FinancialMetrics_validate ::
  "(string \<Rightarrow> rat option) \<Rightarrow> (pyval \<Rightarrow> string) \<Rightarrow> dict \<Rightarrow> validation_error + dict" where
  "FinancialMetrics_validate float_of_str py_str data =
     (case convert_field TInt py_int_of ''total_users'' data of
        Inl e \<Rightarrow> Inl e
      | Inr data1 \<Rightarrow>
     (case convert_field TInt py_int_of ''paid_users'' data1 of
        Inl e \<Rightarrow> Inl e
      | Inr data2 \<Rightarrow>
     (case convert_fields TFloat (py_float_of float_of_str)
             [''total_gmv'', ''total_profit'', ''avg_revenue_per_user'', ''conversion_rate''] data2 of
        Inl e \<Rightarrow> Inl e
      | Inr data3 \<Rightarrow>
     (case BaseModel_validate FinancialMetrics_required_fields FinancialMetrics_field_types
             py_str data3 of
        Inl e \<Rightarrow> Inl e
      | Inr data4 \<Rightarrow>
          if is_negative (data4 ''total_users'') then Inl ValidationError
          else if is_negative (data4 ''paid_users'') then Inl ValidationError
          else if is_negative (data4 ''total_gmv'') then Inl ValidationError
          else if rate_out_of_range (data4 ''conversion_rate'') then Inl ValidationError
          else Inr data4))))"

text \<open>
  What a numeric field is worth once converted: the value itself when it already has the
  wanted type, else its conversion; \<open>None\<close> when the conversion fails.
\<close>

definition converted :: "pytype \<Rightarrow> (pyval \<Rightarrow> pyval option) \<Rightarrow> pyval \<Rightarrow> pyval option" where
  "converted wanted convert v = (if isinstance v wanted then Some v else convert v)"

definition int_fields :: "string list" where
  "int_fields = [''total_users'', ''paid_users'']"

definition float_fields :: "string list" where
  "float_fields = [''total_gmv'', ''total_profit'', ''avg_revenue_per_user'', ''conversion_rate'']"

text \<open>
  The reasons for which a record is rejected, read off the record as given, and the
  record in which the listed fields have been converted.
\<close>

definition missing_required :: "dict \<Rightarrow> bool" where
  "missing_required data = list_ex (\<lambda>field. data field = None) FinancialMetrics_required_fields"

definition conversion_fails ::
  "pytype \<Rightarrow> (pyval \<Rightarrow> pyval option) \<Rightarrow> string list \<Rightarrow> dict \<Rightarrow> bool" where
  "conversion_fails wanted convert fs data =
     list_ex (\<lambda>field. case data field of
                         Some v \<Rightarrow> converted wanted convert v = None
                       | None \<Rightarrow> False) fs"

definition coercion_fails :: "(string \<Rightarrow> rat option) \<Rightarrow> dict \<Rightarrow> bool" where
  "coercion_fails float_of_str data =
     (conversion_fails TInt py_int_of int_fields data \<or>
      conversion_fails TFloat (py_float_of float_of_str) float_fields data)"

definition converted_dict ::
  "pytype \<Rightarrow> (pyval \<Rightarrow> pyval option) \<Rightarrow> string list \<Rightarrow> dict \<Rightarrow> dict" where
  "converted_dict wanted convert fs data =
     (\<lambda>field. if field \<in> set fs then Option.bind (data field) (converted wanted convert)
              else data field)"

definition negative_after :: "pytype \<Rightarrow> (pyval \<Rightarrow> pyval option) \<Rightarrow> pyval option \<Rightarrow> bool" where
  "negative_after wanted convert v =
     (case v of Some x \<Rightarrow> is_negative (converted wanted convert x) | None \<Rightarrow> False)"

definition rate_out_of_range_after :: "(string \<Rightarrow> rat option) \<Rightarrow> pyval option \<Rightarrow> bool" where
  "rate_out_of_range_after float_of_str v =
     (case v of
        Some x \<Rightarrow> rate_out_of_range (converted TFloat (py_float_of float_of_str) x)
      | None \<Rightarrow> False)"

subsection \<open>Concrete financial records\<close>

text \<open>
  Python's \<open>str\<close> on the values other than floats; the examples never apply it to a
  float, for which it gives the empty string here.
\<close>

fun py_str_no_floats :: "pyval \<Rightarrow> string" where
  "py_str_no_floats (VStr s) = s"
| "py_str_no_floats (VInt i) = str_int i"
| "py_str_no_floats (VBool b) = (if b then ''True'' else ''False'')"
| "py_str_no_floats VNone = ''None''"
| "py_str_no_floats (VFloat x) = []"

text \<open>A record with sound numbers and no \<open>timestamp\<close>.\<close>

definition metrics_without_timestamp :: dict where
  "metrics_without_timestamp =
     [''id'' \<mapsto> VStr ''1'', ''created_at'' \<mapsto> VStr ''2023-07-01T00:00:00'',
      ''total_users'' \<mapsto> VInt 500, ''paid_users'' \<mapsto> VInt 350,
      ''total_gmv'' \<mapsto> VFloat 50000, ''total_profit'' \<mapsto> VFloat 35000]"

text \<open>A complete record whose \<open>total_gmv\<close> is a string that is not a number.\<close>

definition metrics_with_unparsable_gmv :: dict where
  "metrics_with_unparsable_gmv =
     [''id'' \<mapsto> VStr ''1'', ''created_at'' \<mapsto> VStr ''2023-07-01T00:00:00'',
      ''total_users'' \<mapsto> VStr ''500'', ''paid_users'' \<mapsto> VInt 350,
      ''total_gmv'' \<mapsto> VStr ''N/A'', ''total_profit'' \<mapsto> VFloat 35000,
      ''timestamp'' \<mapsto> VStr ''2023-07-01T00:00:00'']"

section \<open>Properties of the retry wrapper\<close>

lemma try_get_fails:
  "attempt_fails session url (calls w) \<Longrightarrow>
   try_get session url w = (Inl (attempt_error session url (calls w)), w\<lparr>calls := calls w + 1\<rparr>)"
  by (auto simp: try_get_def attempt_fails_def attempt_error_def raise_for_status_def Let_def
      split: outcome.splits option.splits if_splits)

lemma try_get_succeeds:
  "attempt_body session url (calls w) = Some b \<Longrightarrow>
   try_get session url w = (Inr b, w\<lparr>calls := calls w + 1\<rparr>)"
  by (auto simp: try_get_def attempt_body_def Let_def split: outcome.splits option.splits if_splits)

lemma attempt_fails_iff_no_body:
  "attempt_fails session url n \<longleftrightarrow> attempt_body session url n = None"
  by (auto simp: attempt_fails_def attempt_body_def split: outcome.splits)

lemma backoffs_Suc:
  "0 \<le> rc \<Longrightarrow> backoffs rc (Suc k) = 2 ^ nat (rc + 1) # backoffs (rc + 1) k"
proof -
  assume rc: "0 \<le> rc"
  have "[0..<Suc k] = 0 # map Suc [0..<k]"
    by (simp add: upt_conv_Cons map_Suc_upt del: upt_Suc)
  then show ?thesis
    using rc by (simp add: backoffs_def nat_add_distrib comp_def del: upt_Suc)
qed

lemma fetch_loop_run:
  "0 \<le> rc \<Longrightarrow> fetch_loop session url mr rc le w = (res, w') \<Longrightarrow>
   \<exists>f. (\<forall>i<f. attempt_fails session url (calls w + i)) \<and>
       sleeps w' = sleeps w @ backoffs rc f \<and> (f = 0 \<or> rc + int f \<le> mr) \<and>
       ((\<exists>b. res = Inr b \<and> attempt_body session url (calls w + f) = Some b \<and>
             calls w' = calls w + f + 1 \<and> rc + int f < mr) \<or>
        (\<exists>le'. res = Inl (Failed_to_fetch url mr le') \<and> calls w' = calls w + f \<and>
             \<not> rc + int f < mr))"
proof (induction session url mr rc le w rule: fetch_loop.induct)
  case (1 session url mr rc le w)
  show ?case
  proof (cases "rc < mr")
    case False
    with "1.prems" have "res = Inl (Failed_to_fetch url mr le)" "w' = w"
      by (simp_all add: fetch_loop.simps[of session url mr rc le w])
    with False show ?thesis
      by (intro exI[of _ 0]) (simp add: backoffs_def)
  next
    case True
    show ?thesis
    proof (cases "attempt_body session url (calls w)")
      case (Some b)
      from try_get_succeeds[OF Some] True "1.prems"
      have "res = Inr b" "w' = w\<lparr>calls := calls w + 1\<rparr>"
        by (simp_all add: fetch_loop.simps[of session url mr rc le w])
      with Some True show ?thesis
        by (intro exI[of _ 0]) (simp add: backoffs_def)
    next
      case None
      then have f0: "attempt_fails session url (calls w)"
        by (simp add: attempt_fails_iff_no_body)
      let ?e = "attempt_error session url (calls w)"
      let ?w1 = "w\<lparr>calls := calls w + 1\<rparr>"
      let ?w2 = "sleep (2 ^ nat (rc + 1)) ?w1"
      have tg: "try_get session url w = (Inl ?e, ?w1)"
        by (rule try_get_fails[OF f0])
      have eq: "fetch_loop session url mr (rc + 1) (Some ?e) ?w2 = (res, w')"
        using "1.prems"(2) True tg
        by (simp add: fetch_loop.simps[of session url mr rc le w] Let_def)
      have "0 \<le> rc + 1" using "1.prems"(1) by simp
      from "1.IH"[OF True tg[symmetric] refl refl refl this eq]
      obtain f where f: "\<forall>i<f. attempt_fails session url (calls ?w2 + i)"
        "sleeps w' = sleeps ?w2 @ backoffs (rc + 1) f" "f = 0 \<or> rc + 1 + int f \<le> mr"
        "(\<exists>b. res = Inr b \<and> attempt_body session url (calls ?w2 + f) = Some b \<and>
             calls w' = calls ?w2 + f + 1 \<and> rc + 1 + int f < mr) \<or>
        (\<exists>le'. res = Inl (Failed_to_fetch url mr le') \<and> calls w' = calls ?w2 + f \<and>
             \<not> rc + 1 + int f < mr)"
        by blast
      have a: "\<forall>i<Suc f. attempt_fails session url (calls w + i)"
      proof (intro allI impI)
        fix i assume "i < Suc f"
        show "attempt_fails session url (calls w + i)"
        proof (cases i)
          case 0 with f0 show ?thesis by simp
        next
          case (Suc j)
          with \<open>i < Suc f\<close> f(1) show ?thesis by (auto simp: sleep_def)
        qed
      qed
      have b: "sleeps w' = sleeps w @ backoffs rc (Suc f)"
        using f(2) "1.prems"(1) by (simp add: sleep_def backoffs_Suc)
      have d: "Suc f = 0 \<or> rc + int (Suc f) \<le> mr"
        using f(3) True by auto
      from f(4) have c: "(\<exists>b. res = Inr b \<and> attempt_body session url (calls w + Suc f) = Some b \<and>
             calls w' = calls w + Suc f + 1 \<and> rc + int (Suc f) < mr) \<or>
        (\<exists>le'. res = Inl (Failed_to_fetch url mr le') \<and> calls w' = calls w + Suc f \<and>
             \<not> rc + int (Suc f) < mr)"
        by (auto simp: sleep_def algebra_simps)
      from a b c d show ?thesis by blast
    qed
  qed
qed

lemma backoffs_0: "backoffs 0 f = map (\<lambda>k. 2 ^ k) [1..<Suc f]"
proof -
  have "[1..<Suc f] = map Suc [0..<f]"
    by (simp add: map_Suc_upt del: upt_Suc)
  then show ?thesis by (simp add: backoffs_def comp_def del: upt_Suc)
qed

lemma two_failures_then_page_facts:
  "attempt_fails two_failures_then_page ''u'' 0"
  "attempt_fails two_failures_then_page ''u'' 1"
  "attempt_body two_failures_then_page ''u'' 2 = Some ''Success''"
  by (simp_all add: two_failures_then_page_def attempt_fails_def attempt_body_def replay_def
      raise_for_status_def)

text \<open>
  Claim C1. For every session, \<open>_fetch_with_retry\<close> makes at most \<open>max_retries\<close> calls
  of \<open>session.get\<close>. If the first \<open>k - 1\<close> attempts fail and attempt \<open>k\<close>
  (\<open>1 \<le> k \<le> max_retries\<close>) succeeds, it returns that attempt's body after exactly
  \<open>k\<close> calls. If the first \<open>max_retries\<close> attempts all fail, it raises the
  fetch-failed error, which carries the URL and \<open>max_retries\<close>, after exactly
  \<open>max_retries\<close> calls. (\<open>nat max_retries\<close> is \<open>max_retries\<close> itself when that is
  not negative, and 0 otherwise: a negative bound makes no call at all.)
\<close>

theorem fetch_with_retry_attempts:
  assumes run: "fetch_with_retry session url max_retries w = (res, w')"
  shows "calls w' \<le> calls w + nat max_retries \<and>
    (\<forall>k b. 1 \<le> k \<and> int k \<le> max_retries \<and>
        (\<forall>i<k - 1. attempt_fails session url (calls w + i)) \<and>
        attempt_body session url (calls w + (k - 1)) = Some b \<longrightarrow>
        res = Inr b \<and> calls w' = calls w + k) \<and>
    ((\<forall>i<nat max_retries. attempt_fails session url (calls w + i)) \<longrightarrow>
        (\<exists>last_error. res = Inl (Failed_to_fetch url max_retries last_error)) \<and>
        calls w' = calls w + nat max_retries)"
proof -
  from run have "fetch_loop session url max_retries 0 None w = (res, w')"
    by (simp add: fetch_with_retry_def)
  from fetch_loop_run[OF _ this]
  obtain f where fails: "\<forall>i<f. attempt_fails session url (calls w + i)"
    and bound: "f = 0 \<or> int f \<le> max_retries"
    and final: "(\<exists>b. res = Inr b \<and> attempt_body session url (calls w + f) = Some b \<and>
             calls w' = calls w + f + 1 \<and> int f < max_retries) \<or>
        (\<exists>le'. res = Inl (Failed_to_fetch url max_retries le') \<and> calls w' = calls w + f \<and>
             \<not> int f < max_retries)"
    by auto
  have at_most: "calls w' \<le> calls w + nat max_retries"
    using bound final by auto
  have success: "res = Inr b \<and> calls w' = calls w + k"
    if k: "1 \<le> k" "int k \<le> max_retries"
      and before: "\<forall>i<k - 1. attempt_fails session url (calls w + i)"
      and ok: "attempt_body session url (calls w + (k - 1)) = Some b" for k b
  proof -
    have "\<not> f < k - 1"
    proof
      assume lt: "f < k - 1"
      with before have "attempt_body session url (calls w + f) = None"
        by (simp add: attempt_fails_iff_no_body)
      moreover from lt k have "int f < max_retries" by linarith
      ultimately show False using final by auto
    qed
    moreover have "\<not> k - 1 < f"
    proof
      assume "k - 1 < f"
      with fails have "attempt_fails session url (calls w + (k - 1))" by blast
      with ok show False by (simp add: attempt_fails_iff_no_body)
    qed
    ultimately have "f = k - 1" by simp
    moreover from this k have "int f < max_retries" by linarith
    ultimately show ?thesis using final ok k by auto
  qed
  have exhausted: "(\<exists>last_error. res = Inl (Failed_to_fetch url max_retries last_error)) \<and>
        calls w' = calls w + nat max_retries"
    if all: "\<forall>i<nat max_retries. attempt_fails session url (calls w + i)"
  proof -
    have "\<not> int f < max_retries"
    proof
      assume lt: "int f < max_retries"
      then have "f < nat max_retries" by linarith
      with all have "attempt_body session url (calls w + f) = None"
        by (simp add: attempt_fails_iff_no_body)
      with lt final show False by auto
    qed
    with final bound show ?thesis by auto
  qed
  from at_most success exhausted show ?thesis by blast
qed

theorem fetch_with_retry_attempts_witness:
  "attempt_fails two_failures_then_page ''u'' 0 \<and>
   attempt_fails two_failures_then_page ''u'' 1 \<and>
   attempt_body two_failures_then_page ''u'' 2 = Some ''Success'' \<and>
   fst (fetch_with_retry two_failures_then_page ''u'' 3 world0) = Inr ''Success'' \<and>
   calls (snd (fetch_with_retry two_failures_then_page ''u'' 3 world0)) = 3 \<and>
   attempt_fails always_failing ''u'' 0 \<and>
   attempt_fails always_failing ''u'' 1 \<and>
   (\<exists>last_error. fst (fetch_with_retry always_failing ''u'' 2 world0) =
      Inl (Failed_to_fetch ''u'' 2 last_error)) \<and>
   calls (snd (fetch_with_retry always_failing ''u'' 2 world0)) = 2"
proof -
  let ?r = "fetch_with_retry two_failures_then_page ''u'' 3 world0"
  let ?q = "fetch_with_retry always_failing ''u'' 2 world0"
  have c0: "calls world0 = 0" by (simp add: world0_def)
  have before: "\<forall>i<3 - 1. attempt_fails two_failures_then_page ''u'' (calls world0 + i)"
    using two_failures_then_page_facts(1,2) by (simp add: c0 less_Suc_eq numeral_2_eq_2)
  have ok: "attempt_body two_failures_then_page ''u'' (calls world0 + (3 - 1)) = Some ''Success''"
    by (simp add: c0 two_failures_then_page_def attempt_body_def replay_def raise_for_status_def)
  have "?r = (fst ?r, snd ?r)" by simp
  from fetch_with_retry_attempts[OF this]
  have "\<forall>k b. 1 \<le> k \<and> int k \<le> 3 \<and>
        (\<forall>i<k - 1. attempt_fails two_failures_then_page ''u'' (calls world0 + i)) \<and>
        attempt_body two_failures_then_page ''u'' (calls world0 + (k - 1)) = Some b \<longrightarrow>
        fst ?r = Inr b \<and> calls (snd ?r) = calls world0 + k"
    by (elim conjE)
  from this[rule_format, of 3 "''Success''"] before ok
  have A: "fst ?r = Inr ''Success'' \<and> calls (snd ?r) = calls world0 + 3"
    by simp
  have af: "attempt_fails always_failing ''u'' n" for n
    by (simp add: always_failing_def attempt_fails_def raise_for_status_def)
  then have all: "\<forall>i<nat 2. attempt_fails always_failing ''u'' (calls world0 + i)" by simp
  have "?q = (fst ?q, snd ?q)" by simp
  from fetch_with_retry_attempts[OF this] all
  have B: "(\<exists>last_error. fst ?q = Inl (Failed_to_fetch ''u'' 2 last_error)) \<and>
     calls (snd ?q) = calls world0 + nat 2"
    by blast
  from A B af two_failures_then_page_facts show ?thesis by (simp add: c0)
qed

text \<open>
  Claim C2, as stated, fails: a 404 response, whose status is not in
  \<open>RETRY_STATUS_FORCELIST\<close>, is retried, and the second attempt's page is returned after
  two calls.
\<close>

theorem non_transient_error_is_retried:
  "404 \<notin> set RETRY_STATUS_FORCELIST \<and>
   fetch_with_retry not_found_then_page ''u'' MAX_RETRIES world0 =
     (Inr ''page'', \<lparr>calls = 2, sleeps = [2]\<rparr>)"
  by code_simp

text \<open>
  Claim C2, amended. The wrapper retries after every \<open>requests.RequestException\<close>: an
  exception raised by \<open>session.get\<close> or any HTTP status from 400 to 599, whether or not
  the status is in \<open>RETRY_STATUS_FORCELIST\<close>. Whenever the attempts up to some attempt
  all fail in one of these ways and attempts remain, the wrapper sleeps after each of
  them and goes on with the next attempt: after \<open>j + 1\<close> failures with
  \<open>j + 1 < max_retries\<close> at least \<open>j + 2\<close> calls are made. No error fails
  immediately.
\<close>

theorem fetch_with_retry_retries_every_error:
  assumes err: "\<forall>i\<le>j. (\<exists>msg. session (calls w + i) url = Raises msg) \<or>
      (\<exists>r. session (calls w + i) url = Returns r \<and> 400 \<le> status_code r \<and> status_code r < 600)"
    and more: "int j + 1 < max_retries"
  shows "calls w + j + 2 \<le> calls (snd (fetch_with_retry session url max_retries w)) \<and>
    take (Suc j) (drop (length (sleeps w)) (sleeps (snd (fetch_with_retry session url max_retries w)))) =
      map (\<lambda>k. 2 ^ k) [1..<Suc (Suc j)]"
proof -
  let ?r = "fetch_with_retry session url max_retries w"
  have fails: "attempt_fails session url (calls w + i)" if "i \<le> j" for i
    using err that by (auto simp: attempt_fails_def raise_for_status_def)
  have "fetch_loop session url max_retries 0 None w = (fst ?r, snd ?r)"
    by (simp add: fetch_with_retry_def)
  from fetch_loop_run[OF _ this]
  obtain f where sl: "sleeps (snd ?r) = sleeps w @ backoffs 0 f"
    and final: "(\<exists>b. fst ?r = Inr b \<and> attempt_body session url (calls w + f) = Some b \<and>
             calls (snd ?r) = calls w + f + 1 \<and> int f < max_retries) \<or>
        (\<exists>le'. fst ?r = Inl (Failed_to_fetch url max_retries le') \<and> calls (snd ?r) = calls w + f \<and>
             \<not> int f < max_retries)"
    by auto
  from final have jf: "j < f \<and> calls w + j + 2 \<le> calls (snd ?r)"
  proof
    assume "\<exists>b. fst ?r = Inr b \<and> attempt_body session url (calls w + f) = Some b \<and>
             calls (snd ?r) = calls w + f + 1 \<and> int f < max_retries"
    then obtain b where b: "attempt_body session url (calls w + f) = Some b"
      "calls (snd ?r) = calls w + f + 1" by blast
    have "\<not> f \<le> j"
    proof
      assume "f \<le> j"
      from fails[OF this] b(1) show False by (simp add: attempt_fails_iff_no_body)
    qed
    with b(2) show ?thesis by simp
  next
    assume "\<exists>le'. fst ?r = Inl (Failed_to_fetch url max_retries le') \<and>
        calls (snd ?r) = calls w + f \<and> \<not> int f < max_retries"
    with more show ?thesis by auto
  qed
  have "take (Suc j) (backoffs 0 f) = map (\<lambda>k. 2 ^ k) [1..<Suc (Suc j)]"
  proof -
    from jf have "1 + Suc j \<le> Suc f" by simp
    from take_upt[OF this] have "take (Suc j) [1..<Suc f] = [1..<Suc (Suc j)]"
      by (simp del: upt_Suc)
    then show ?thesis
      by (simp only: backoffs_0 take_map)
  qed
  with sl jf show ?thesis by simp
qed

theorem fetch_with_retry_retries_every_error_witness:
  "not_found_twice_then_page (calls world0 + 0) ''u'' = Returns (Response 404 ''Not Found'') \<and>
   not_found_twice_then_page (calls world0 + 1) ''u'' = Returns (Response 404 ''Not Found'') \<and>
   (400::int) \<le> 404 \<and> (404::int) < 600 \<and> int 1 + 1 < MAX_RETRIES \<and>
   calls world0 + 1 + 2 \<le>
     calls (snd (fetch_with_retry not_found_twice_then_page ''u'' MAX_RETRIES world0)) \<and>
   fetch_with_retry not_found_twice_then_page ''u'' MAX_RETRIES world0 =
     (Inr ''page'', \<lparr>calls = 3, sleeps = [2, 4]\<rparr>)"
proof -
  have r: "not_found_twice_then_page (calls world0 + 0) ''u'' = Returns (Response 404 ''Not Found'')"
    "not_found_twice_then_page (calls world0 + 1) ''u'' = Returns (Response 404 ''Not Found'')"
    by (simp_all add: not_found_twice_then_page_def replay_def world0_def)
  have e: "\<forall>i\<le>1. (\<exists>msg. not_found_twice_then_page (calls world0 + i) ''u'' = Raises msg) \<or>
      (\<exists>r. not_found_twice_then_page (calls world0 + i) ''u'' = Returns r \<and>
         400 \<le> status_code r \<and> status_code r < 600)"
  proof (intro allI impI)
    fix i :: nat assume "i \<le> 1"
    then have "i = 0 \<or> i = 1" by auto
    with r show "(\<exists>msg. not_found_twice_then_page (calls world0 + i) ''u'' = Raises msg) \<or>
      (\<exists>r. not_found_twice_then_page (calls world0 + i) ''u'' = Returns r \<and>
         400 \<le> status_code r \<and> status_code r < 600)"
      by auto
  qed
  have m: "int 1 + 1 < MAX_RETRIES" by (simp add: MAX_RETRIES_def)
  have run: "fetch_with_retry not_found_twice_then_page ''u'' MAX_RETRIES world0 =
     (Inr ''page'', \<lparr>calls = 3, sleeps = [2, 4]\<rparr>)"
    by code_simp
  from fetch_with_retry_retries_every_error[where session = not_found_twice_then_page
      and w = world0 and url = "''u''" and j = 1 and max_retries = MAX_RETRIES, OF e m]
  have "calls world0 + 1 + 2 \<le>
      calls (snd (fetch_with_retry not_found_twice_then_page ''u'' MAX_RETRIES world0))" ..
  with r m run show ?thesis by simp
qed

text \<open>
  Claim C8, as stated, fails: the configured \<open>RETRY_BACKOFF_FACTOR\<close> is 0.5, and the wait
  before the retry that follows one failed attempt is 2 seconds, which is neither
  \<open>0.5 ^ 1\<close> nor \<open>0.5 ^ 2\<close>.
\<close>

theorem backoff_ignores_configured_factor:
  "sleeps (snd (fetch_with_retry unavailable_then_page ''u'' MAX_RETRIES world0)) = [2] \<and>
   rat_of_int 2 \<noteq> RETRY_BACKOFF_FACTOR ^ 1 \<and> rat_of_int 2 \<noteq> RETRY_BACKOFF_FACTOR ^ 2"
  by code_simp

text \<open>
  Claim C8, amended. The base of the backoff is the constant 2, whatever
  \<open>RETRY_BACKOFF_FACTOR\<close> is: after the \<open>k\<close>-th failed attempt (counted from 1) the
  wrapper sleeps \<open>2 ^ k\<close> seconds, without jitter, and it does so after every failed
  attempt, the last one before raising included. The waits of one call are therefore
  \<open>2, 4, ..., 2 ^ f\<close> for \<open>f\<close> failed attempts.
\<close>

theorem fetch_with_retry_backoff:
  assumes "fetch_with_retry session url max_retries w = (res, w')"
  shows "sleeps w' = sleeps w @ map (\<lambda>k. 2 ^ k) [1..<Suc (failed_attempts res w w')]"
proof -
  from assms have "fetch_loop session url max_retries 0 None w = (res, w')"
    by (simp add: fetch_with_retry_def)
  from fetch_loop_run[OF _ this]
  obtain f where s: "sleeps w' = sleeps w @ backoffs 0 f"
    and final: "(\<exists>b. res = Inr b \<and> calls w' = calls w + f + 1) \<or>
        (\<exists>le'. res = Inl (Failed_to_fetch url max_retries le') \<and> calls w' = calls w + f)"
    by auto
  from final have "failed_attempts res w w' = f"
    by (auto simp: failed_attempts_def)
  with s show ?thesis by (simp only: backoffs_0)
qed

theorem fetch_with_retry_backoff_witness:
  "fetch_with_retry always_failing ''u'' 3 world0 =
     (Inl (Failed_to_fetch ''u'' 3 (Some (HTTPError 500))), \<lparr>calls = 3, sleeps = [2, 4, 8]\<rparr>) \<and>
   sleeps \<lparr>calls = 3, sleeps = [2, 4, 8]\<rparr> = sleeps world0 @ map (\<lambda>k. 2 ^ k) [1..<Suc 3]"
proof -
  have run: "fetch_with_retry always_failing ''u'' 3 world0 =
     (Inl (Failed_to_fetch ''u'' 3 (Some (HTTPError 500))), \<lparr>calls = 3, sleeps = [2, 4, 8]\<rparr>)"
    by code_simp
  from fetch_with_retry_backoff[OF run] run show ?thesis
    by (simp add: failed_attempts_def world0_def)
qed

section \<open>Properties of the page parser\<close>

lemma is_space_lower_char: "is_space (lower_char c) = is_space c"
proof (cases "65 \<le> (of_char c :: nat) \<and> (of_char c :: nat) \<le> 90")
  case True
  then have "(of_char (lower_char c) :: nat) = of_char c + 32"
    by (simp add: lower_char_def)
  with True show ?thesis by (simp add: is_space_def)
next
  case False
  then show ?thesis by (auto simp: lower_char_def)
qed

lemma dropWhile_is_space_lower:
  "lower (dropWhile is_space s) = dropWhile is_space (lower s)"
  by (induction s) (simp_all add: lower_def is_space_lower_char)

lemma lower_rev: "lower (rev s) = rev (lower s)"
  by (simp add: lower_def rev_map)

lemma lower_strip: "lower (strip s) = strip (lower s)"
  by (simp add: strip_def dropWhile_is_space_lower lower_rev)

lemma lower_get_text_strip: "lower (get_text_strip e) = get_text_strip (map lower e)"
proof -
  have "lower (concat (filter (\<lambda>t. t \<noteq> []) ts)) =
        concat (filter (\<lambda>t. t \<noteq> []) (map lower ts))" for ts
    by (induction ts) (simp_all add: lower_def)
  from this[of "map strip e"] show ?thesis
    by (simp add: get_text_strip_def lower_strip comp_def)
qed

lemma sublist_dropWhile:
  assumes "sublist sub s" "sub \<noteq> []" "\<not> P (hd sub)"
  shows "sublist sub (dropWhile P s)"
  using assms
proof (induction s)
  case Nil
  then show ?case by simp
next
  case (Cons c cs)
  show ?case
  proof (cases "P c")
    case False
    with Cons.prems show ?thesis by simp
  next
    case True
    from Cons.prems(1) have "prefix sub (c # cs) \<or> sublist sub cs"
      by (simp add: sublist_Cons_right)
    moreover have "\<not> prefix sub (c # cs)"
    proof
      assume "prefix sub (c # cs)"
      with Cons.prems(2) have "hd sub = c" by (cases sub) auto
      with True Cons.prems(3) show False by simp
    qed
    ultimately have "sublist sub cs" by simp
    with Cons.IH Cons.prems True show ?thesis by simp
  qed
qed

lemma sublist_strip:
  assumes "sublist sub s" "sub \<noteq> []" "\<not> is_space (hd sub)" "\<not> is_space (last sub)"
  shows "sublist sub (strip s)"
proof -
  have "sublist sub (dropWhile is_space s)"
    using assms(1-3) by (rule sublist_dropWhile)
  then have "sublist (rev sub) (rev (dropWhile is_space s))"
    by (simp add: sublist_rev)
  moreover have "rev sub \<noteq> []" "\<not> is_space (hd (rev sub))"
    using assms(2,4) by (simp_all add: hd_rev)
  ultimately have "sublist (rev sub) (dropWhile is_space (rev (dropWhile is_space s)))"
    by (rule sublist_dropWhile)
  then have "sublist (rev (rev sub)) (strip s)"
    unfolding strip_def by (simp only: sublist_rev)
  then show ?thesis by simp
qed

lemma sublist_concat_member:
  assumes "t \<in> set ts" "sublist sub t"
  shows "sublist sub (concat ts)"
proof -
  from assms(1) obtain as bs where "ts = as @ t # bs"
    by (auto dest: split_list)
  then have "concat ts = concat as @ t @ concat bs" by simp
  moreover from assms(2) obtain ps ss where "t = ps @ sub @ ss"
    by (auto simp: sublist_def)
  ultimately have "concat ts = (concat as @ ps) @ sub @ (ss @ concat bs)" by simp
  then show ?thesis unfolding sublist_def by blast
qed

lemma sublist_get_text_strip:
  assumes "t \<in> set e" "sublist sub t" "sub \<noteq> []" "\<not> is_space (hd sub)" "\<not> is_space (last sub)"
  shows "sublist sub (get_text_strip e)"
proof -
  have s: "sublist sub (strip t)"
    using assms(2-5) by (rule sublist_strip)
  with assms(3) have "strip t \<noteq> []" by auto
  with assms(1) have "strip t \<in> set (filter (\<lambda>t. t \<noteq> []) (map strip e))" by simp
  from sublist_concat_member[OF this s] show ?thesis
    by (simp add: get_text_strip_def)
qed

lemma parse_user_element_paid:
  "parse_user_element orc page_number i u ''paid'' =
     (case payment_elem u of
        None \<Rightarrow> None
      | Some e \<Rightarrow> Some (VBool (sublist ''paid'' (lower (get_text_strip e)) \<or>
                               sublist ''success'' (lower (get_text_strip e)))))"
  by (simp add: parse_user_element_def Let_def split: option.splits)

text \<open>
  Claim C10. The parser decides the paid status by substring containment, not by a
  whole-word match: whenever some text node of the payment-status element, lower-cased,
  contains \<open>paid\<close> or \<open>success\<close>, as \<open>Unpaid\<close> does, the parsed record has
  \<open>paid = True\<close>.
\<close>

theorem parse_user_element_paid_substring:
  assumes "payment_elem u = Some e" and "t \<in> set e"
    and "sublist ''paid'' (lower t) \<or> sublist ''success'' (lower t)"
  shows "parse_user_element orc page_number i u ''paid'' = Some (VBool True)"
proof -
  have lt: "lower t \<in> set (map lower e)" using assms(2) by simp
  have "\<not> is_space (CHR ''p'')" "\<not> is_space (CHR ''d'')" "\<not> is_space (CHR ''s'')"
    by (simp_all add: is_space_def)
  then have "sublist ''paid'' (get_text_strip (map lower e)) \<or>
        sublist ''success'' (get_text_strip (map lower e))"
    using assms(3) sublist_get_text_strip[OF lt, of "''paid''"]
      sublist_get_text_strip[OF lt, of "''success''"]
    by auto
  then show ?thesis
    using assms(1) by (simp add: parse_user_element_paid lower_get_text_strip)
qed

theorem parse_user_element_paid_substring_witness:
  "payment_elem unpaid_item = Some [''Unpaid''] \<and> ''Unpaid'' \<in> set [''Unpaid''] \<and>
   sublist ''paid'' (lower ''Unpaid'') \<and>
   parse_user_element oracles0 1 0 unpaid_item ''paid'' = Some (VBool True)"
proof -
  have a: "payment_elem unpaid_item = Some [''Unpaid'']"
    by (simp add: unpaid_item_def user_item_def)
  have b: "''Unpaid'' \<in> set [''Unpaid'']" by simp
  have c: "sublist ''paid'' (lower ''Unpaid'')" by code_simp
  then have "sublist ''paid'' (lower ''Unpaid'') \<or> sublist ''success'' (lower ''Unpaid'')" ..
  from parse_user_element_paid_substring[OF a b this] a b c show ?thesis by simp
qed

text \<open>
  Claim C5, as stated, fails: for the second user item of the test page, whose status
  text is \<open>Pending\<close>, the parser does not leave \<open>paid\<close> unset; it stores \<open>False\<close>.
\<close>

theorem pending_sets_paid_false:
  "(fst (parse_user_data oracles0 USER_LIST_HTML 1) ! 1) ''paid'' = Some (VBool False)"
  by code_simp

text \<open>
  Claim C5, amended. The parser yields one raw record per user item. For an item with a
  payment-status element it sets \<open>paid\<close> to \<open>True\<close> exactly when the stripped,
  lower-cased status text contains \<open>paid\<close> or \<open>success\<close>, and to \<open>False\<close>
  otherwise; \<open>paid\<close> is left unset only when the item has no payment-status element. For
  the page with the status texts \<open>Paid\<close> and \<open>Pending\<close> the two records have
  \<open>paid = True\<close> and \<open>paid = False\<close>.
\<close>

theorem parse_user_data_paid:
  "length (fst (parse_user_data orc soup page_number)) = length (user_elements soup) \<and>
   (\<forall>i < length (user_elements soup).
      (fst (parse_user_data orc soup page_number) ! i) ''paid'' =
        (case payment_elem (user_elements soup ! i) of
           None \<Rightarrow> None
         | Some e \<Rightarrow> Some (VBool (sublist ''paid'' (lower (get_text_strip e)) \<or>
                                  sublist ''success'' (lower (get_text_strip e)))))) \<and>
   map (\<lambda>user. user ''paid'') (fst (parse_user_data orc USER_LIST_HTML page_number)) =
     [Some (VBool True), Some (VBool False)]"
proof -
  have ex: "map (\<lambda>user. user ''paid'') (fst (parse_user_data orc USER_LIST_HTML page_number)) =
     [Some (VBool True), Some (VBool False)]"
  proof -
    have "sublist ''paid'' (lower (get_text_strip [''Paid'']))"
      "\<not> sublist ''paid'' (lower (get_text_strip [''Pending'']))"
      "\<not> sublist ''success'' (lower (get_text_strip [''Pending'']))"
      by code_simp+
    then show ?thesis
      by (simp add: parse_user_data_def USER_LIST_HTML_def user_item_def enumerate_eq_zip
          parse_user_element_paid upt_rec)
  qed
  show ?thesis
    using ex by (simp add: parse_user_data_def parse_user_element_paid nth_enumerate_eq)
qed

theorem parse_user_data_paid_witness:
  "(1::nat) < length (user_elements USER_LIST_HTML) \<and>
   (fst (parse_user_data oracles0 USER_LIST_HTML 1) ! 1) ''paid'' =
     Some (VBool (sublist ''paid'' (lower (get_text_strip [''Pending''])) \<or>
                  sublist ''success'' (lower (get_text_strip [''Pending'']))))"
proof -
  have l: "(1::nat) < length (user_elements USER_LIST_HTML)"
    by (simp add: USER_LIST_HTML_def)
  have p: "payment_elem (user_elements USER_LIST_HTML ! 1) = Some [''Pending'']"
    by (simp add: USER_LIST_HTML_def user_item_def)
  from parse_user_data_paid[of oracles0 USER_LIST_HTML 1] l
  have "(fst (parse_user_data oracles0 USER_LIST_HTML 1) ! 1) ''paid'' =
        (case payment_elem (user_elements USER_LIST_HTML ! 1) of
           None \<Rightarrow> None
         | Some e \<Rightarrow> Some (VBool (sublist ''paid'' (lower (get_text_strip e)) \<or>
                                  sublist ''success'' (lower (get_text_strip e)))))"
    by blast
  with l p show ?thesis by simp
qed

lemma split_at_not_Nil: "split_at P s \<noteq> []"
  by (induction s) (auto split: list.splits)

lemma split_at_snoc: "P c \<Longrightarrow> split_at P (s @ [c]) = split_at P s @ [[]]"
proof (induction s)
  case Nil
  then show ?case by simp
next
  case (Cons x xs)
  then show ?case
    using split_at_not_Nil[of P xs] by (cases "split_at P xs") auto
qed

lemma split_ws_snoc: "is_space c \<Longrightarrow> split_ws (s @ [c]) = split_ws s"
  by (simp add: split_ws_def split_at_snoc)

lemma split_ws_Cons: "is_space c \<Longrightarrow> split_ws (c # s) = split_ws s"
  by (simp add: split_ws_def)

lemma split_ws_dropWhile: "split_ws (dropWhile is_space s) = split_ws s"
  by (induction s) (simp_all add: split_ws_Cons)

lemma split_ws_drop_trailing: "split_ws (rev (dropWhile is_space (rev s))) = split_ws s"
  by (induction s rule: rev_induct) (simp_all add: split_ws_snoc)

lemma split_ws_strip: "split_ws (strip s) = split_ws s"
  by (simp add: strip_def split_ws_drop_trailing split_ws_dropWhile)

lemma split_sep_no_occurrence:
  "\<not> sublist sep s \<Longrightarrow> split_sep sep acc s = [rev acc @ s]"
proof (induction s arbitrary: acc)
  case Nil
  then show ?case by simp
next
  case (Cons c cs)
  from Cons.prems have "\<not> prefix sep (c # cs)" "\<not> sublist sep cs"
    by (auto simp: sublist_Cons_right)
  with Cons.IH[of "c # acc"] show ?case by simp
qed

lemma sublist_lower: "sublist sub s \<Longrightarrow> sublist (lower sub) (lower s)"
  unfolding sublist_def lower_def by (metis map_append)

lemma no_of_no_numbers:
  assumes "\<not> sublist ''of'' (lower txt)"
  shows "pagination_numbers txt = None"
proof -
  have l: "lower ''of'' = ''of''" by code_simp
  have "\<not> sublist ''of'' txt"
  proof
    assume "sublist ''of'' txt"
    then have "sublist (lower ''of'') (lower txt)" by (rule sublist_lower)
    with l assms show False by simp
  qed
  then have "split_str txt ''of'' = [txt]"
    by (simp add: split_str_def split_sep_no_occurrence)
  then show ?thesis by (simp add: pagination_numbers_def)
qed

lemma index_or_raise_simps:
  "index_or_raise xs 0 = (case xs of [] \<Rightarrow> Inl IndexError | x # _ \<Rightarrow> Inr x)"
  "index_or_raise xs 1 = (case xs of x # y # _ \<Rightarrow> Inr y | _ \<Rightarrow> Inl IndexError)"
  "index_or_raise xs (- 1) = (if xs = [] then Inl IndexError else Inr (last xs))"
  by (auto simp: index_or_raise_def last_conv_nth Suc_le_eq split: list.splits)

lemma current_and_total_numbers:
  "(case current_and_total (split_str txt ''of'') of Inr p \<Rightarrow> Some p | Inl e \<Rightarrow> None) =
   pagination_numbers txt"
  by (auto simp: current_and_total_def pagination_numbers_def index_or_raise_simps
      int_or_raise_def split_ws_strip split: list.splits option.splits sum.splits)

text \<open>
  Claim C9. If a pagination-info element is present and its text splits on the token
  \<open>of\<close> into two parseable integers, the has-next-page decision is
  \<open>current < total\<close>; if that parse fails, or the element is absent, the decision is
  whether the CSS-matched, non-disabled next control is present.
\<close>

theorem check_for_next_page_decision:
  "check_for_next_page soup =
     (case page_info soup of
        None \<Rightarrow> next_button soup \<noteq> None
      | Some info \<Rightarrow>
          (case pagination_numbers (get_text_strip info) of
             Some (current, total') \<Rightarrow> current < total'
           | None \<Rightarrow> next_button soup \<noteq> None))"
proof (cases "page_info soup")
  case None
  then show ?thesis by (simp add: check_for_next_page_def)
next
  case (Some info)
  let ?txt = "get_text_strip info"
  show ?thesis
  proof (cases "sublist ''of'' (lower ?txt)")
    case False
    with Some show ?thesis
      by (simp add: check_for_next_page_def no_of_no_numbers)
  next
    case True
    with Some current_and_total_numbers[of ?txt] show ?thesis
      by (auto simp: check_for_next_page_def split: sum.splits option.splits)
  qed
qed

theorem check_for_next_page_decision_witness:
  "pagination_numbers (get_text_strip ['' Page 1 of 5 '']) = Some (1, 5) \<and>
   check_for_next_page page_1_of_5 \<and>
   \<not> check_for_next_page page_5_of_5_with_next \<and>
   pagination_numbers (get_text_strip [''Lots of users'']) = None \<and>
   check_for_next_page page_unparsable_info"
proof -
  have n: "pagination_numbers (get_text_strip ['' Page 1 of 5 '']) = Some (1, 5)"
    "pagination_numbers (get_text_strip [''Page 5 of 5'']) = Some (5, 5)"
    "pagination_numbers (get_text_strip [''Lots of users'']) = None"
    by code_simp+
  from n check_for_next_page_decision[of page_1_of_5]
    check_for_next_page_decision[of page_5_of_5_with_next]
    check_for_next_page_decision[of page_unparsable_info]
  show ?thesis
    by (simp add: page_1_of_5_def page_5_of_5_with_next_def page_unparsable_info_def)
qed

section \<open>Properties of the paginator\<close>

lemma scrape_loop_after_pages:
  "pages_collected k orc session max_retries p0 acc0 w0 = Some (p, acc, w) \<Longrightarrow>
   scrape_loop (k + n) orc session max_retries p0 acc0 w0 =
   scrape_loop n orc session max_retries p acc w"
proof (induction k arbitrary: p0 acc0 w0)
  case 0
  then show ?case by simp
next
  case (Suc k)
  then show ?case
    by (auto split: prod.splits sum.splits if_splits)
qed

lemma scrape_loop_out_of_fuel:
  "pages_collected k orc session max_retries p0 acc0 w0 = Some (p, acc, w) \<Longrightarrow> fuel \<le> k \<Longrightarrow>
   scrape_loop fuel orc session max_retries p0 acc0 w0 = None"
proof (induction k arbitrary: p0 acc0 w0 fuel)
  case 0
  then show ?case by simp
next
  case (Suc k)
  show ?case
  proof (cases fuel)
    case 0
    then show ?thesis by simp
  next
    case (Suc fuel')
    with Suc.prems Suc.IH[of _ _ _ fuel'] show ?thesis
      by (auto split: prod.splits sum.splits if_splits)
  qed
qed

text \<open>
  Claim C3. Whenever, after any number of pages collected, the retries are exhausted on
  the page being fetched, the whole collection raises: with enough fuel for the loop to
  reach that page the result is the error naming the page, at \<open>_scrape_with_requests\<close>
  and at \<open>scrape\<close> alike, and with less fuel there is no result at all. In no case is a
  list of records returned: the records accumulated from the earlier pages are dropped.
\<close>

theorem scrape_aborts_on_exhausted_retries:
  assumes collected: "pages_collected k orc session max_retries 1 [] w = Some (p, acc, w1)"
    and exhausted: "fetch_with_retry session (page_url p) max_retries w1 = (Inl e, w2)"
  shows "scrape_with_requests fuel orc strptime timestamps session max_retries w =
      (if k < fuel then Some (Inl (Failed_to_scrape_page p e), w2) else None) \<and>
    scrape fuel orc strptime timestamps session max_retries w =
      (if k < fuel then Some (Inl (User_data_scraping_failed (Failed_to_scrape_page p e)), w2)
       else None)"
proof (cases "k < fuel")
  case True
  then obtain n where fuel: "fuel = k + Suc n"
    by (metis add_Suc_right less_iff_Suc_add)
  have "scrape_loop fuel orc session max_retries 1 [] w =
        scrape_loop (Suc n) orc session max_retries p acc w1"
    unfolding fuel by (rule scrape_loop_after_pages[OF collected])
  also have "\<dots> = Some (Inl (Failed_to_scrape_page p e), w2)"
    using exhausted by simp
  finally show ?thesis
    using True by (simp add: scrape_with_requests_def scrape_def)
next
  case False
  then have "fuel \<le> k" by simp
  from scrape_loop_out_of_fuel[OF collected this] False show ?thesis
    by (simp add: scrape_with_requests_def scrape_def)
qed

theorem scrape_aborts_on_exhausted_retries_witness:
  "pages_collected 1 oracles0 one_page_then_down MAX_RETRIES 1 [] world0 =
     Some (2, fst (parse_user_data oracles0 page_with_next 1), \<lparr>calls = 1, sleeps = [3]\<rparr>) \<and>
   fetch_with_retry one_page_then_down (page_url 2) MAX_RETRIES \<lparr>calls = 1, sleeps = [3]\<rparr> =
     (Inl (Failed_to_fetch (page_url 2) MAX_RETRIES (Some (ConnectionError ''connection refused''))),
      \<lparr>calls = 4, sleeps = [3, 2, 4, 8]\<rparr>) \<and>
   scrape 5 oracles0 no_strptime timestamps0 one_page_then_down MAX_RETRIES world0 =
     Some (Inl (User_data_scraping_failed (Failed_to_scrape_page 2
             (Failed_to_fetch (page_url 2) MAX_RETRIES
                (Some (ConnectionError ''connection refused''))))),
           \<lparr>calls = 4, sleeps = [3, 2, 4, 8]\<rparr>)"
proof -
  have f1: "fetch_with_retry one_page_then_down (page_url 1) MAX_RETRIES world0 =
      (Inr page_with_next, \<lparr>calls = 1, sleeps = []\<rparr>)"
    by (simp add: fetch_with_retry_def fetch_loop.simps[of _ _ _ 0] MAX_RETRIES_def try_get_def
        one_page_then_down_def world0_def raise_for_status_def)
  have nx: "check_for_next_page page_with_next"
    by (simp add: check_for_next_page_def page_with_next_def)
  have a: "pages_collected 1 oracles0 one_page_then_down MAX_RETRIES 1 [] world0 =
     Some (2, fst (parse_user_data oracles0 page_with_next 1), \<lparr>calls = 1, sleeps = [3]\<rparr>)"
    using f1 nx by (simp add: parse_user_data_def sleep_def REQUEST_DELAY_def)
  have t: "try_get one_page_then_down url \<lparr>calls = Suc n, sleeps = s\<rparr> =
      (Inl (ConnectionError ''connection refused''), \<lparr>calls = Suc (Suc n), sleeps = s\<rparr>)" for url n s
    by (simp add: try_get_def one_page_then_down_def)
  have b: "fetch_with_retry one_page_then_down (page_url 2) MAX_RETRIES \<lparr>calls = 1, sleeps = [3]\<rparr> =
     (Inl (Failed_to_fetch (page_url 2) MAX_RETRIES (Some (ConnectionError ''connection refused''))),
      \<lparr>calls = 4, sleeps = [3, 2, 4, 8]\<rparr>)"
    using t[of _ 0] t[of _ 1] t[of _ 2]
    by (simp add: fetch_with_retry_def fetch_loop.simps[of _ _ 3] MAX_RETRIES_def sleep_def
        eval_nat_numeral)
  from scrape_aborts_on_exhausted_retries[OF a b, of 5 no_strptime timestamps0] a b
  show ?thesis by simp
qed

section \<open>Properties of the paid coercion\<close>

lemma paid_after_steps:
  "clean_name user = Some user1 \<Longrightarrow> user1 ''paid'' = user ''paid''"
  "clean_email user1 = Some user2 \<Longrightarrow> user2 ''paid'' = user1 ''paid''"
  "process_join_date strptime user3 ''paid'' = user3 ''paid''"
  "flag_email_valid user4 ''paid'' = user4 ''paid''"
  by (auto simp: clean_name_def clean_email_def process_join_date_def flag_email_valid_def
      split: option.splits pyval.splits if_splits)

lemma standardize_paid_str:
  "user ''paid'' = Some (VStr paid) \<Longrightarrow>
   standardize_paid user ''paid'' =
     Some (VBool (lower paid \<in> set [''true'', ''yes'', ''paid'', ''success'', ''1'']))"
  by (simp add: standardize_paid_def)

lemma process_user_paid:
  assumes "process_user strptime timestamp user = Some processed_user"
    and "user ''paid'' = Some (VStr paid)"
  shows "processed_user ''paid'' =
     Some (VBool (lower paid \<in> set [''true'', ''yes'', ''paid'', ''success'', ''1'']))"
proof -
  from assms(1) obtain user1 user2 where
    s: "clean_name user = Some user1" "clean_email user1 = Some user2"
      "processed_user = (flag_email_valid (process_join_date strptime (standardize_paid user2)))
                        (''processed_timestamp'' \<mapsto> VStr timestamp)"
    by (auto simp: process_user_def Let_def split: option.splits if_splits)
  from s(1,2) assms(2) have "user2 ''paid'' = Some (VStr paid)"
    by (simp add: paid_after_steps)
  then show ?thesis
    by (simp add: s(3) paid_after_steps standardize_paid_str)
qed

lemma check_field_types_paid_string:
  "d ''paid'' = Some (VStr paid) \<Longrightarrow> (''paid'', TBool) \<in> set fts \<Longrightarrow>
   distinct (map fst fts) \<Longrightarrow> check_field_types fts py_str d = Inl ValidationError"
proof (induction fts arbitrary: d)
  case Nil
  then show ?case by simp
next
  case (Cons ft rest)
  obtain field expected_type where ft: "ft = (field, expected_type)" by (cases ft)
  show ?case
  proof (cases "field = ''paid''")
    case True
    with Cons.prems ft have "expected_type = TBool"
      by (auto simp: image_iff)
    with True Cons.prems(1) ft show ?thesis by simp
  next
    case False
    with Cons.prems ft have in_rest: "(''paid'', TBool) \<in> set rest" "distinct (map fst rest)"
      by auto
    have same: "check_field_types rest py_str d = Inl ValidationError"
      using Cons.IH[of d, OF Cons.prems(1) in_rest] .
    have upd: "check_field_types rest py_str (d(field \<mapsto> x)) = Inl ValidationError" for x
    proof -
      have "(d(field \<mapsto> x)) ''paid'' = Some (VStr paid)"
        using False Cons.prems(1) by simp
      from Cons.IH[of "d(field \<mapsto> x)", OF this in_rest] show ?thesis .
    qed
    show ?thesis
      unfolding ft check_field_types.simps
      by (simp only: same upd if_cancel split: option.splits pyval.splits) simp
  qed
qed

lemma User_validate_rejects_paid_string:
  assumes "data ''paid'' = Some (VStr paid)"
  shows "User_validate py_str data = Inl ValidationError"
proof -
  have "check_field_types User_field_types py_str data = Inl ValidationError"
    by (rule check_field_types_paid_string[of data paid, OF assms])
      (simp_all add: User_field_types_def)
  then show ?thesis
    by (simp add: User_validate_def BaseModel_validate_def)
qed

text \<open>
  Claim C4 holds for \<open>UserScraper._process_user_data\<close> and not for \<open>User.validate\<close>.
  For the raw record whose \<open>paid\<close> is the string \<open>paid\<close>, the scraper stores
  \<open>True\<close>; the coercion written in \<open>User.validate\<close> knows only \<open>true\<close>,
  \<open>yes\<close> and \<open>1\<close> and gives \<open>False\<close>; and that coercion is never reached, because
  \<open>BaseModel.validate\<close> has already rejected the string for a field of type \<open>bool\<close>:
  constructing a \<open>User\<close> from the record raises \<open>ValidationError\<close>, as it does for the
  string \<open>true\<close>.
\<close>

theorem User_paid_coercion_diverges:
  "map_option (\<lambda>processed_user. processed_user ''paid'')
       (process_user strptime timestamp (raw_user ''paid'')) = Some (Some (VBool True)) \<and>
   User_paid_from_text ''paid'' = False \<and>
   User_init py_str new_id created (raw_user ''paid'') = Inl ValidationError \<and>
   User_init py_str new_id created (raw_user ''true'') = Inl ValidationError"
proof -
  have v: "validate_user_record (u(''processed_timestamp'' \<mapsto> VStr timestamp))"
    if "u ''id'' = Some (VStr ''123'')" "u ''scrape_date'' = Some (VStr ''2023-07-01T00:00:00'')"
       "u ''name'' = Some (VStr ''John Doe'')" for u
    using that by (simp add: validate_user_record_def)
  have t: "title (strip ''john doe'') = ''John Doe''" by code_simp
  have l: "lower ''paid'' = ''paid''" by code_simp
  obtain processed_user where
    p: "process_user strptime timestamp (raw_user ''paid'') = Some processed_user"
    using t
    by (auto simp: process_user_def raw_user_def clean_name_def clean_email_def Let_def
        standardize_paid_def process_join_date_def flag_email_valid_def validate_user_record_def)
  have "(raw_user ''paid'') ''paid'' = Some (VStr ''paid'')" by (simp add: raw_user_def)
  from process_user_paid[OF p this] l p
  have a: "map_option (\<lambda>processed_user. processed_user ''paid'')
       (process_user strptime timestamp (raw_user ''paid'')) = Some (Some (VBool True))"
    by simp
  have b: "User_paid_from_text ''paid'' = False"
    by (simp add: User_paid_from_text_def l)
  have c: "User_init py_str new_id created (raw_user s) = Inl ValidationError" for s
    by (simp add: User_init_def Let_def raw_user_def User_validate_rejects_paid_string)
  from a b c show ?thesis by simp
qed

section \<open>Properties of the financial normalization\<close>

lemma round_half_even_near:
  assumes "\<bar>y - of_int n\<bar> < 1 / 2"
  shows "round_half_even y = n"
proof (cases "of_int n \<le> y")
  case True
  with assms have "\<lfloor>y\<rfloor> = n" by (simp add: floor_eq_iff)
  with assms True show ?thesis by (simp add: round_half_even_def Let_def)
next
  case False
  with assms have fl: "\<lfloor>y\<rfloor> = n - 1" by (simp add: floor_eq_iff)
  from False assms have "1 / 2 < y - of_int (n - 1)" by simp
  with fl show ?thesis by (simp add: round_half_even_def Let_def)
qed

lemma round_half_even_error: "\<bar>y - of_int (round_half_even y)\<bar> \<le> 1 / 2"
proof -
  define f where "f = \<lfloor>y\<rfloor>"
  define d where "d = y - of_int f"
  have d: "0 \<le> d" "d < 1"
    using floor_correct[of y] by (simp_all add: d_def f_def)
  have r: "round_half_even y =
      (if d < 1 / 2 then f else if 1 / 2 < d then f + 1 else if even f then f else f + 1)"
    by (simp add: round_half_even_def Let_def f_def d_def)
  have "y - of_int (round_half_even y) = d \<or> y - of_int (round_half_even y) = d - 1"
    unfolding r by (simp add: d_def)
  moreover have "d < 1 / 2 \<Longrightarrow> y - of_int (round_half_even y) = d"
    unfolding r by (simp add: d_def)
  moreover have "1 / 2 < d \<Longrightarrow> y - of_int (round_half_even y) = d - 1"
    unfolding r by (simp add: d_def)
  ultimately show ?thesis
    using d by (cases "d < 1 / 2"; cases "1 / 2 < d") (auto simp: abs_if)
qed

lemma pow2_nat: "0 \<le> k \<Longrightarrow> (of_int (2 ^ nat k) :: rat) = power_int 2 k"
  by (simp add: power_int_def)

lemma pow2_quotient: "power_int (2::rat) a / power_int 2 b = power_int 2 (a - b)"
  by (simp add: power_int_diff)

lemma binary_exponent_bounds:
  assumes "x \<noteq> 0"
  shows "power_int 2 (binary_exponent x) \<le> \<bar>x\<bar> \<and> \<bar>x\<bar> < power_int 2 (binary_exponent x + 1)"
proof -
  obtain p q where pq: "quotient_of \<bar>x\<bar> = (p, q)" by (cases "quotient_of \<bar>x\<bar>")
  then have q: "0 < q" and x: "\<bar>x\<bar> = of_int p / of_int q"
    by (auto dest: quotient_of_denom_pos quotient_of_div)
  from assms have "0 < \<bar>x\<bar>" by simp
  with x q have p: "0 < p"
    by (simp add: zero_less_divide_iff)
  let ?bp = "bitlen p" and ?bq = "bitlen q"
  have bp: "1 \<le> ?bp" and bq: "1 \<le> ?bq"
    using p q bitlen_nonneg[of p] bitlen_nonneg[of q] bitlen_eq_zero_iff[of p] bitlen_eq_zero_iff[of q]
    by linarith+
  have P: "power_int 2 (?bp - 1) \<le> (of_int p :: rat)" "(of_int p :: rat) < power_int 2 ?bp"
    using bitlen_bounds[OF p] bp
    by (simp_all flip: pow2_nat add: of_int_le_iff of_int_less_iff del: of_int_power)
  have Q: "power_int 2 (?bq - 1) \<le> (of_int q :: rat)" "(of_int q :: rat) < power_int 2 ?bq"
    using bitlen_bounds[OF q] bq
    by (simp_all flip: pow2_nat add: of_int_le_iff of_int_less_iff del: of_int_power)
  let ?e = "?bp - ?bq"
  have qpos: "(0::rat) < of_int q" using q by simp
  have ppos: "(0::rat) < of_int p" using p by simp
  have up: "\<bar>x\<bar> < power_int 2 (?e + 1)"
  proof -
    have "of_int p / of_int q < power_int 2 ?bp / (of_int q :: rat)"
      using P(2) qpos by (simp add: divide_strict_right_mono)
    also have "\<dots> \<le> power_int 2 ?bp / power_int 2 (?bq - 1)"
    proof (intro divide_left_mono)
      show "power_int 2 (?bq - 1) \<le> (of_int q :: rat)" by (rule Q(1))
      show "(0::rat) \<le> power_int 2 ?bp" by simp
      have "(0::rat) < power_int 2 (?bq - 1)" by simp
      with qpos show "(0::rat) < of_int q * power_int 2 (?bq - 1)" by simp
    qed
    also have "\<dots> = power_int 2 (?bp - (?bq - 1))"
      by (rule pow2_quotient)
    also have "?bp - (?bq - 1) = ?e + 1" by simp
    finally show ?thesis by (simp add: x)
  qed
  have low: "power_int 2 (?e - 1) < \<bar>x\<bar>"
  proof -
    have "?e - 1 = ?bp - 1 - ?bq" by simp
    then have "power_int 2 (?e - 1) = power_int 2 (?bp - 1) / (power_int 2 ?bq :: rat)"
      by (simp only: pow2_quotient)
    also have "\<dots> \<le> of_int p / power_int 2 ?bq"
      using P(1) by (simp add: divide_right_mono)
    also have "\<dots> < of_int p / of_int q"
      using Q(2) qpos ppos by (simp add: divide_strict_left_mono)
    finally show ?thesis by (simp add: x)
  qed
  show ?thesis
  proof (cases "power_int 2 ?e \<le> \<bar>x\<bar>")
    case True
    then have "binary_exponent x = ?e"
      by (simp add: binary_exponent_def pq Let_def)
    with True up show ?thesis by simp
  next
    case False
    then have "binary_exponent x = ?e - 1"
      by (simp add: binary_exponent_def pq Let_def)
    with False low show ?thesis by simp
  qed
qed

lemma binary_exponent_unique:
  assumes "power_int 2 e \<le> \<bar>x\<bar>" "\<bar>x\<bar> < power_int 2 (e + 1)"
  shows "binary_exponent x = e"
proof -
  have "x \<noteq> 0"
  proof
    assume "x = 0"
    with assms(1) have "power_int (2::rat) e \<le> 0" by simp
    moreover have "(0::rat) < power_int 2 e" by simp
    ultimately show False by simp
  qed
  from binary_exponent_bounds[OF this]
  have b: "power_int 2 (binary_exponent x) \<le> \<bar>x\<bar>" "\<bar>x\<bar> < power_int 2 (binary_exponent x + 1)"
    by simp_all
  have lt: "m < n" if "power_int (2::rat) m < power_int 2 n" for m n :: int
  proof (rule ccontr)
    assume "\<not> m < n"
    then have "power_int (2::rat) n \<le> power_int 2 m"
      by (intro power_int_increasing) simp_all
    with that show False by simp
  qed
  have "power_int (2::rat) e < power_int 2 (binary_exponent x + 1)"
    using assms(1) b(2) by simp
  then have 1: "e < binary_exponent x + 1" by (rule lt)
  have "power_int (2::rat) (binary_exponent x) < power_int 2 (e + 1)"
    using assms(2) b(1) by simp
  then have 2: "binary_exponent x < e + 1" by (rule lt)
  from 1 2 show ?thesis by simp
qed


lemma pow2_less_cancel: "power_int (2::rat) m < power_int 2 n \<Longrightarrow> m < n"
proof (rule ccontr)
  assume a: "power_int (2::rat) m < power_int 2 n" "\<not> m < n"
  then have "power_int (2::rat) n \<le> power_int 2 m"
    by (intro power_int_increasing) simp_all
  with a(1) show False by simp
qed

lemma bracket_nonzero: "power_int (2::rat) e \<le> \<bar>x\<bar> \<Longrightarrow> x \<noteq> 0"
proof
  assume a: "power_int (2::rat) e \<le> \<bar>x\<bar>" "x = 0"
  have "(0::rat) < power_int 2 e" by simp
  moreover from a have "power_int (2::rat) e \<le> 0" by simp
  ultimately show False by linarith
qed

lemma to_double_near:
  assumes "power_int 2 e \<le> \<bar>x\<bar>" "\<bar>x\<bar> < power_int 2 (e + 1)"
    and "\<bar>x / power_int 2 (e - 52) - of_int m\<bar> < 1 / 2"
  shows "to_double x = of_int m * power_int 2 (e - 52)"
proof -
  have e: "binary_exponent x = e"
    using assms(1,2) by (rule binary_exponent_unique)
  from assms(1) have "x \<noteq> 0" by (rule bracket_nonzero)
  with e assms(3) show ?thesis
    by (simp add: to_double_def Let_def round_half_even_near)
qed

lemma to_double_error:
  assumes "power_int 2 e \<le> \<bar>x\<bar>" "\<bar>x\<bar> < power_int 2 (e + 1)"
  shows "\<bar>to_double x - x\<bar> \<le> power_int 2 (e - 53)"
proof -
  let ?ulp = "power_int (2::rat) (e - 52)"
  let ?m = "round_half_even (x / ?ulp)"
  have e: "binary_exponent x = e"
    using assms by (rule binary_exponent_unique)
  from assms(1) have "x \<noteq> 0" by (rule bracket_nonzero)
  with e have t: "to_double x = of_int ?m * ?ulp"
    by (simp add: to_double_def Let_def)
  have pos: "0 < ?ulp" by simp
  have "\<bar>x / ?ulp - of_int ?m\<bar> \<le> 1 / 2" by (rule round_half_even_error)
  then have "\<bar>x / ?ulp - of_int ?m\<bar> * ?ulp \<le> 1 / 2 * ?ulp"
    using pos by (intro mult_right_mono) simp_all
  moreover have "\<bar>x / ?ulp - of_int ?m\<bar> * ?ulp = \<bar>x - of_int ?m * ?ulp\<bar>"
  proof -
    have "\<bar>x / ?ulp - of_int ?m\<bar> * ?ulp = \<bar>(x / ?ulp - of_int ?m) * ?ulp\<bar>"
      using pos by (simp add: abs_mult)
    also have "(x / ?ulp - of_int ?m) * ?ulp = x - of_int ?m * ?ulp"
      using pos by (simp add: left_diff_distrib)
    finally show ?thesis .
  qed
  moreover have "1 / 2 * ?ulp = power_int 2 (e - 53)"
  proof -
    have "e - 53 = e - 52 - 1" by simp
    then have "power_int (2::rat) (e - 53) = ?ulp / power_int 2 1"
      by (simp only: pow2_quotient)
    then show ?thesis by simp
  qed
  ultimately show ?thesis
    by (simp add: t abs_minus_commute)
qed

lemma to_double_int:
  assumes "\<bar>n\<bar> < 2 ^ 53"
  shows "to_double (of_int n) = of_int n"
proof (cases "n = 0")
  case True
  then show ?thesis by (simp add: to_double_def)
next
  case False
  let ?x = "of_int n :: rat"
  let ?e = "binary_exponent ?x"
  from False have nz: "?x \<noteq> 0" by simp
  from binary_exponent_bounds[OF nz]
  have b: "power_int 2 ?e \<le> \<bar>?x\<bar>" "\<bar>?x\<bar> < power_int 2 (?e + 1)" by simp_all
  have "\<bar>?x\<bar> < power_int 2 53"
  proof -
    from assms have "(of_int \<bar>n\<bar> :: rat) < of_int (2 ^ 53)"
      by (simp only: of_int_less_iff)
    then show ?thesis by simp
  qed
  with b(1) have "power_int (2::rat) ?e < power_int 2 53" by simp
  then have "?e < 53" by (rule pow2_less_cancel)
  then have k: "0 \<le> 52 - ?e" by simp
  have "?x / power_int 2 (?e - 52) = ?x * power_int 2 (52 - ?e)"
  proof -
    have "power_int (2::rat) (?e - 52) = inverse (power_int 2 (52 - ?e))"
      using power_int_minus[of "2::rat" "52 - ?e"] by simp
    then show ?thesis by (simp add: divide_inverse)
  qed
  also have "\<dots> = of_int (n * 2 ^ nat (52 - ?e))"
    using k by (simp add: power_int_def)
  finally have q: "?x / power_int 2 (?e - 52) = of_int (n * 2 ^ nat (52 - ?e))" .
  have "to_double ?x = of_int (n * 2 ^ nat (52 - ?e)) * power_int 2 (?e - 52)"
  proof (rule to_double_near[OF b])
    show "\<bar>?x / power_int 2 (?e - 52) - of_int (n * 2 ^ nat (52 - ?e))\<bar> < 1 / 2"
      unfolding q by simp
  qed
  also have "\<dots> = ?x / power_int 2 (?e - 52) * power_int 2 (?e - 52)"
    by (simp only: q)
  also have "\<dots> = ?x" by simp
  finally show ?thesis .
qed

lemma small_ints:
  "float_of_int 350 = 350" "float_of_int 100 = 100" "float_of_int 200 = 200"
  "float_of_int 2 = 2" "to_double 70 = 70" "to_double 50000 = 50000" "to_double 3 = 3"
  using to_double_int[of 350] to_double_int[of 100] to_double_int[of 200] to_double_int[of 2]
    to_double_int[of 70] to_double_int[of 50000] to_double_int[of 3]
  by (simp_all add: float_of_int_def)

lemma pw: "power_int (2::rat) (- 46) = 1 / 70368744177664"
  "power_int (2::rat) (- 54) = 1 / 18014398509481984"
  "power_int (2::rat) (- 45) = 1 / 35184372088832"
  by (simp_all add: power_int_minus_divide)

lemma example_avg:
  "py_round2 (float_div 50000 (float_of_int 350)) = to_double (14286 / 100)"
proof -
  let ?q = "to_double (50000 / 350)"
  have "\<bar>?q - 50000 / 350\<bar> \<le> power_int 2 (7 - 53)"
    by (rule to_double_error) simp_all
  then have "\<bar>?q - 50000 / 350\<bar> \<le> 1 / 70368744177664"
    by (simp add: pw)
  then have "\<bar>?q * 100 - of_int 14286\<bar> < 1 / 2"
    by (simp add: abs_if split: if_splits)
  then have "round_half_even (?q * 100) = 14286"
    by (rule round_half_even_near)
  then show ?thesis
    by (simp add: py_round2_def float_div_def small_ints)
qed

lemma example_rate:
  "py_round2 (float_mul (int_truediv 350 500) (float_of_int 100)) = 70"
proof -
  let ?r = "to_double (of_int 350 / of_int 500)"
  have "\<bar>?r - of_int 350 / of_int 500\<bar> \<le> power_int 2 (- 1 - 53)"
    by (rule to_double_error) simp_all
  then have r: "\<bar>?r - 7 / 10\<bar> \<le> 1 / 18014398509481984"
    by (simp add: pw)
  have "to_double (?r * 100) = of_int (70 * 2 ^ 46) * power_int 2 (6 - 52)"
  proof (rule to_double_near)
    show "power_int 2 6 \<le> \<bar>?r * 100\<bar>" using r by (simp add: abs_if split: if_splits)
    show "\<bar>?r * 100\<bar> < power_int 2 (6 + 1)" using r by (simp add: abs_if split: if_splits)
    show "\<bar>?r * 100 / power_int 2 (6 - 52) - of_int (70 * 2 ^ 46)\<bar> < 1 / 2"
      using r by (simp add: pw abs_if split: if_splits)
  qed
  then have "to_double (?r * 100) = 70"
    by (simp add: pw)
  then show ?thesis
    by (simp add: py_round2_def float_mul_def int_truediv_def small_ints round_half_even_def)
qed

lemma pw2: "power_int (2::rat) (- 59) = 1 / 576460752303423488"
  "power_int (2::rat) (- 50) = 1 / 1125899906842624"
  "power_int (2::rat) (- 51) = 1 / 2251799813685248"
  "power_int (2::rat) (- 60) = 1 / 1152921504606846976"
  "power_int (2::rat) (- 7) = 1 / 128"
  "power_int (2::rat) (- 6) = 1 / 64"
  "power_int (2::rat) (- 5) = 1 / 32"
  by (simp_all add: power_int_minus_divide)

lemma double_of_3_200: "to_double (3 / 200) = 8646911284551352 / 576460752303423488"
proof -
  have "to_double (3 / 200) = of_int 8646911284551352 * power_int 2 (- 7 - 52)"
    by (rule to_double_near) (simp_all add: pw2)
  then show ?thesis by (simp add: pw2)
qed

lemma round_below_tie:
  "py_round2 (float_div 3 (float_of_int 200)) = to_double (1 / 100)"
proof -
  have "\<bar>to_double (3 / 200) * 100 - of_int 1\<bar> < 1 / 2"
    by (simp add: double_of_3_200)
  then have "round_half_even (to_double (3 / 200) * 100) = 1"
    by (rule round_half_even_near)
  then show ?thesis
    by (simp add: py_round2_def float_div_def small_ints)
qed

lemma double_of_535: "to_double (535 / 100) = 6023564501608038 / 1125899906842624"
proof -
  have "to_double (535 / 100) = of_int 6023564501608038 * power_int 2 (2 - 52)"
    by (rule to_double_near) (simp_all add: pw2)
  then show ?thesis by (simp add: pw2)
qed

lemma half_of_535:
  "to_double (to_double (535 / 100) / 2) = 6023564501608038 / 2251799813685248"
proof -
  have "to_double (to_double (535 / 100) / 2) = of_int 6023564501608038 * power_int 2 (1 - 52)"
    by (rule to_double_near) (unfold double_of_535, simp_all add: pw2)
  then show ?thesis by (simp add: pw2)
qed

lemma round_below_tie_currency:
  "py_round2 (float_div (to_double (535 / 100)) (float_of_int 2)) = to_double (267 / 100)"
proof -
  have "\<bar>to_double (to_double (535 / 100) / 2) * 100 - of_int 267\<bar> < 1 / 2"
    unfolding half_of_535 by simp
  then have "round_half_even (to_double (to_double (535 / 100) / 2) * 100) = 267"
    by (rule round_half_even_near)
  then show ?thesis
    by (simp add: py_round2_def float_div_def small_ints)
qed

lemma hundredths_apart: "to_double (1 / 100) < to_double (2 / 100)"
  "to_double (267 / 100) < to_double (268 / 100)"
proof -
  have a: "\<bar>to_double (1 / 100) - 1 / 100\<bar> \<le> power_int 2 (- 7 - 53)"
    by (rule to_double_error) (simp_all add: pw2)
  have b: "\<bar>to_double (2 / 100) - 2 / 100\<bar> \<le> power_int 2 (- 6 - 53)"
    by (rule to_double_error) (simp_all add: pw2)
  from a b show "to_double (1 / 100) < to_double (2 / 100)"
    by (simp add: pw2 abs_if split: if_splits)
  have c: "\<bar>to_double (267 / 100) - 267 / 100\<bar> \<le> power_int 2 (1 - 53)"
    by (rule to_double_error) simp_all
  have d: "\<bar>to_double (268 / 100) - 268 / 100\<bar> \<le> power_int 2 (1 - 53)"
    by (rule to_double_error) simp_all
  from c d show "to_double (267 / 100) < to_double (268 / 100)"
    by (simp add: power_int_minus_divide abs_if split: if_splits)
qed

lemma cleaned_50000: "digits_and_dots ''$50,000'' = ''50000''" by code_simp

lemma split_50000: "split_at (\<lambda>c. c = CHR ''.'') ''50000'' = [''50000'']" by code_simp

lemma digits_50000: "list_all is_digit ''50000''" by code_simp

lemma digits_val_50000: "digits_val ''50000'' = 50000" by (simp add: digits_val_def digit_val_def)

lemma float_50000: "float_of_digits_and_dots ''50000'' = Some 50000"
  unfolding float_of_digits_and_dots_def split_50000
  using digits_50000 digits_val_50000 small_ints by simp

lemma convert_50000: "convert_currency_to_float ''$50,000'' = 50000"
  unfolding convert_currency_to_float_def Let_def cleaned_50000 float_50000 by simp

lemma convert_currency_strips:
  "convert_currency_to_float s =
   convert_currency_to_float (digits_and_dots s)"
  by (simp add: convert_currency_to_float_def digits_and_dots_def)

lemma calculate_derived_metrics_fields:
  "avg_revenue_per_user (calculate_derived_metrics m) =
     Some (if paid_users m > 0
           then py_round2 (float_div (total_gmv m) (float_of_int (paid_users m))) else 0)"
  "conversion_rate (calculate_derived_metrics m) =
     Some (if total_users m > 0
           then py_round2 (float_mul (int_truediv (paid_users m) (total_users m))
                             (float_of_int 100))
           else 0)"
  by (simp_all add: calculate_derived_metrics_def Let_def)

lemma calculate_derived_metrics_overwrites:
  "calculate_derived_metrics (m\<lparr>avg_revenue_per_user := a, conversion_rate := c\<rparr>) =
   calculate_derived_metrics m"
  by (simp add: calculate_derived_metrics_def Let_def)

lemma cleaned_35000: "digits_and_dots ''$35,000'' = ''35000''" by code_simp

lemma split_35000: "split_at (\<lambda>c. c = CHR ''.'') ''35000'' = [''35000'']" by code_simp

lemma digits_35000: "list_all is_digit ''35000''" by code_simp

lemma digits_val_35000: "digits_val ''35000'' = 35000" by (simp add: digits_val_def digit_val_def)

lemma float_35000: "float_of_digits_and_dots ''35000'' = Some 35000"
  unfolding float_of_digits_and_dots_def split_35000
  using digits_35000 digits_val_35000 to_double_int[of 35000] by simp

lemma convert_35000: "convert_currency_to_float ''$35,000'' = 35000"
  unfolding convert_currency_to_float_def Let_def cleaned_35000 float_35000 by simp

lemma example_calc:
  "calculate_derived_metrics example_metrics =
     example_metrics\<lparr>avg_revenue_per_user := Some (to_double (14286 / 100)),
                      conversion_rate := Some 70\<rparr>"
  using example_avg example_rate
  by (simp add: calculate_derived_metrics_def Let_def example_metrics_def convert_50000)

lemma example_texts: "get_text_strip [''500''] = ''500''" "get_text_strip [''350''] = ''350''"
  "get_text_strip [''$50,000''] = ''$50,000''" "get_text_strip [''$35,000''] = ''$35,000''"
  by code_simp+

lemma example_counts: "py_int (filter (\<lambda>c. c \<noteq> CHR '','') ''500'') = Some 500"
  "py_int (filter (\<lambda>c. c \<noteq> CHR '','') ''350'') = Some 350"
  by code_simp+

lemma example_parse:
  "map (parse_financial_data timestamp FINANCIAL_DATA_HTML)
     [''total_users'', ''paid_users'', ''total_gmv'', ''total_profit'',
      ''avg_revenue_per_user'', ''conversion_rate''] =
   [Some (VInt 500), Some (VInt 350), Some (VFloat 50000), Some (VFloat 35000),
    Some (VFloat (to_double (14286 / 100))), Some (VFloat 70)]"
proof -
  have extracted: "extract_metric (Some [''500'']) d k False = d(k \<mapsto> VInt 500)"
    "extract_metric (Some [''350'']) d k False = d(k \<mapsto> VInt 350)"
    "extract_metric (Some [''$50,000'']) d k True = d(k \<mapsto> VFloat 50000)"
    "extract_metric (Some [''$35,000'']) d k True = d(k \<mapsto> VFloat 35000)" for d k
    unfolding extract_metric_def option.case Let_def example_texts example_counts convert_50000 convert_35000 by simp_all
  show ?thesis
    unfolding parse_financial_data_def Let_def FINANCIAL_DATA_HTML_def financial_page.simps extracted
    using example_avg example_rate
    by (simp add: scraper_calculate_derived_metrics_def py_truediv_def)
qed

lemma py_round2_two_decimals:
  "\<exists>n. py_round2 x = to_double (of_int n / 100) \<and> \<bar>of_int n / 100 - x\<bar> \<le> 1 / 200"
proof -
  have "\<bar>x * 100 - of_int (round_half_even (x * 100))\<bar> \<le> 1 / 2"
    by (rule round_half_even_error)
  then have "\<bar>of_int (round_half_even (x * 100)) / 100 - x\<bar> \<le> 1 / 200"
    by (simp add: abs_if field_simps split: if_splits)
  then show ?thesis
    unfolding py_round2_def by blast
qed

text \<open>
  Claim C6. The currency conversion looks only at the digits and dots of its argument,
  and gives 50000.0 for \<open>$50,000\<close>. \<open>calculate_derived_metrics\<close> stores
  \<open>total_gmv / paid_users\<close> and \<open>100 * paid_users / total_users\<close>, computed in
  floating point and rounded to two decimals by \<open>round\<close>, and 0.0 when the divisor is
  not positive, whatever derived values were there before. \<open>round(x, 2)\<close> is the
  double nearest to a two-decimal number within 0.005 of \<open>x\<close>. For the raw fields
  \<open>500\<close>, \<open>350\<close>, \<open>$50,000\<close> and \<open>$35,000\<close> this gives the doubles 142.86 and
  70.0, both from the model and from the scraper's own parse of the page. The quotient is a
  double before it is rounded: \<open>round(3.0 / 200, 2)\<close> is 0.01 and
  \<open>round(5.35 / 2, 2)\<close> is 2.67, since the doubles 3.0 / 200 and 5.35 lie below
  0.015 and 5.35.
\<close>

theorem financial_normalization:
  "convert_currency_to_float s =
     convert_currency_to_float (digits_and_dots s) \<and>
   convert_currency_to_float ''$50,000'' = 50000 \<and>
   avg_revenue_per_user (calculate_derived_metrics m) =
     Some (if paid_users m > 0
           then py_round2 (float_div (total_gmv m) (float_of_int (paid_users m))) else 0) \<and>
   conversion_rate (calculate_derived_metrics m) =
     Some (if total_users m > 0
           then py_round2 (float_mul (int_truediv (paid_users m) (total_users m))
                             (float_of_int 100))
           else 0) \<and>
   calculate_derived_metrics (m\<lparr>avg_revenue_per_user := a, conversion_rate := c\<rparr>) =
     calculate_derived_metrics m \<and>
   (\<exists>n. py_round2 x = to_double (of_int n / 100) \<and> \<bar>of_int n / 100 - x\<bar> \<le> 1 / 200) \<and>
   py_round2 (float_div 3 (float_of_int 200)) = to_double (1 / 100) \<and>
   to_double (1 / 100) < to_double (2 / 100) \<and>
   py_round2 (float_div (to_double (535 / 100)) (float_of_int 2)) = to_double (267 / 100) \<and>
   to_double (267 / 100) < to_double (268 / 100) \<and>
   total_gmv example_metrics = 50000 \<and>
   calculate_derived_metrics example_metrics =
     example_metrics\<lparr>avg_revenue_per_user := Some (to_double (14286 / 100)),
                      conversion_rate := Some 70\<rparr> \<and>
   map (parse_financial_data timestamp FINANCIAL_DATA_HTML)
     [''total_users'', ''paid_users'', ''total_gmv'', ''total_profit'',
      ''avg_revenue_per_user'', ''conversion_rate''] =
   [Some (VInt 500), Some (VInt 350), Some (VFloat 50000), Some (VFloat 35000),
    Some (VFloat (to_double (14286 / 100))), Some (VFloat 70)]"
proof -
  have "total_gmv example_metrics = 50000"
    by (simp add: example_metrics_def convert_50000)
  with convert_currency_strips[of s] convert_50000 calculate_derived_metrics_fields(1,2)[of m]
    calculate_derived_metrics_overwrites[where m = m and a = a and c = c] py_round2_two_decimals[of x]
    example_calc example_parse[of timestamp] round_below_tie round_below_tie_currency
    hundredths_apart
  show ?thesis by (simp only: simp_thms)
qed

section \<open>Properties of FinancialMetrics.validate\<close>

lemma conversion_fails_cong:
  "(\<And>g. g \<in> set fs \<Longrightarrow> d1 g = d g) \<Longrightarrow>
   conversion_fails wanted convert fs d1 = conversion_fails wanted convert fs d"
  by (simp add: conversion_fails_def list_ex_iff)

lemma convert_field_converted:
  "convert_field wanted convert field d =
     (case d field of
        None \<Rightarrow> Inr d
      | Some v \<Rightarrow>
          (case converted wanted convert v of
             None \<Rightarrow> Inl ValidationError
           | Some v' \<Rightarrow> Inr (d(field \<mapsto> v'))))"
  by (auto simp: convert_field_def converted_def map_upd_triv split: option.splits)

lemma convert_fields_result:
  "distinct fs \<Longrightarrow>
   convert_fields wanted convert fs d =
     (if conversion_fails wanted convert fs d then Inl ValidationError
      else Inr (converted_dict wanted convert fs d))"
proof (induction fs arbitrary: d)
  case Nil
  then show ?case by (simp add: conversion_fails_def converted_dict_def)
next
  case (Cons f rest)
  then have f: "f \<notin> set rest" and dr: "distinct rest" by simp_all
  show ?case
  proof (cases "d f")
    case None
    have "converted_dict wanted convert (f # rest) d = converted_dict wanted convert rest d"
      using None f by (auto simp: converted_dict_def)
    moreover have "conversion_fails wanted convert (f # rest) d =
        conversion_fails wanted convert rest d"
      using None by (simp add: conversion_fails_def)
    ultimately show ?thesis
      using None Cons.IH[OF dr, of d] by (simp add: convert_field_converted)
  next
    case (Some v)
    show ?thesis
    proof (cases "converted wanted convert v")
      case None
      with Some show ?thesis
        by (simp add: convert_field_converted conversion_fails_def)
    next
      case (Some v')
      let ?d1 = "d(f \<mapsto> v')"
      have same: "conversion_fails wanted convert rest ?d1 = conversion_fails wanted convert rest d"
        using f by (intro conversion_fails_cong) auto
      have cd: "converted_dict wanted convert rest ?d1 =
          converted_dict wanted convert (f # rest) d"
        using f \<open>d f = Some v\<close> Some by (auto simp: converted_dict_def)
      have cf: "conversion_fails wanted convert rest d =
          conversion_fails wanted convert (f # rest) d"
        using \<open>d f = Some v\<close> Some by (simp add: conversion_fails_def)
      have "convert_fields wanted convert (f # rest) d =
          convert_fields wanted convert rest ?d1"
        using \<open>d f = Some v\<close> Some by (simp add: convert_field_converted)
      also have "\<dots> = (if conversion_fails wanted convert rest ?d1 then Inl ValidationError
          else Inr (converted_dict wanted convert rest ?d1))"
        by (rule Cons.IH[OF dr])
      also have "\<dots> = (if conversion_fails wanted convert (f # rest) d then Inl ValidationError
          else Inr (converted_dict wanted convert (f # rest) d))"
        by (simp only: same cd cf)
      finally show ?thesis .
    qed
  qed
qed

lemma convert_field_result:
  "convert_field wanted convert f d =
     (if conversion_fails wanted convert [f] d then Inl ValidationError
      else Inr (converted_dict wanted convert [f] d))"
  using convert_fields_result[of "[f]" wanted convert d] by (simp split: sum.splits)

lemma converted_isinstance:
  "converted TInt py_int_of v = Some v' \<Longrightarrow> isinstance v' TInt"
  "converted TFloat (py_float_of float_of_str) v = Some v' \<Longrightarrow> isinstance v' TFloat"
  by (cases v; auto simp: converted_def split: if_splits)+

lemma check_field_types_well_typed:
  assumes "distinct (map fst fts)"
    and "\<And>f ty v. (f, ty) \<in> set fts \<Longrightarrow> ty \<noteq> TStr \<Longrightarrow> d f = Some v \<Longrightarrow> isinstance v ty"
  shows "\<exists>d'. check_field_types fts py_str d = Inr d' \<and>
           (\<forall>f. (f, TStr) \<notin> set fts \<longrightarrow> d' f = d f)"
  using assms
proof (induction fts arbitrary: d)
  case Nil
  then show ?case by simp
next
  case (Cons ft rest)
  obtain field expected_type where ft: "ft = (field, expected_type)" by (cases ft)
  from Cons.prems(1) ft have dr: "distinct (map fst rest)" and nf: "field \<notin> fst ` set rest"
    by auto
  have typed: "isinstance v ty" if "(f, ty) \<in> set rest" "ty \<noteq> TStr" "d f = Some v" for f ty v
    using Cons.prems(2)[of f ty v] that by simp
  have keep: "\<exists>d'. check_field_types rest py_str d = Inr d' \<and>
           (\<forall>f. (f, TStr) \<notin> set rest \<longrightarrow> d' f = d f)"
    using Cons.IH[OF dr, of d] typed by blast
  have upd: "\<exists>d'. check_field_types rest py_str (d(field \<mapsto> x)) = Inr d' \<and>
           (\<forall>f. (f, TStr) \<notin> set rest \<longrightarrow> d' f = (d(field \<mapsto> x)) f)" for x
  proof (rule Cons.IH[OF dr])
    fix f ty v
    assume a: "(f, ty) \<in> set rest" "ty \<noteq> TStr" "(d(field \<mapsto> x)) f = Some v"
    from a(1) nf have "f \<noteq> field" by force
    with a typed show "isinstance v ty" by simp
  qed
  show ?case
  proof (cases "d field")
    case None
    with keep ft show ?thesis by auto
  next
    case (Some v)
    show ?thesis
    proof (cases "v = VNone")
      case True
      with Some keep ft show ?thesis by auto
    next
      case nn: False
      show ?thesis
      proof (cases "expected_type = TStr")
        case True
        show ?thesis
        proof (cases "isinstance v TStr")
          case inst: True
          with Some nn True keep ft show ?thesis by (cases v) auto
        next
          case False
          from upd[of "VStr (py_str v)"] obtain d' where
            d': "check_field_types rest py_str (d(field \<mapsto> VStr (py_str v))) = Inr d'"
              "\<forall>f. (f, TStr) \<notin> set rest \<longrightarrow> d' f = (d(field \<mapsto> VStr (py_str v))) f"
            by blast
          have "check_field_types (ft # rest) py_str d = Inr d'"
            using Some nn True False d'(1) ft by (cases v) auto
          moreover have "\<forall>f. (f, TStr) \<notin> set (ft # rest) \<longrightarrow> d' f = d f"
            using d'(2) ft True by auto
          ultimately show ?thesis by blast
        qed
      next
        case False
        with Cons.prems(2)[of field expected_type v] Some ft have "isinstance v expected_type"
          by simp
        with Some nn False keep ft show ?thesis by (cases v) auto
      qed
    qed
  qed
qed

lemma bind_converted_None:
  "\<not> conversion_fails wanted convert fs data \<Longrightarrow> f \<in> set fs \<Longrightarrow>
   Option.bind (data f) (converted wanted convert) = None \<longleftrightarrow> data f = None"
  by (cases "data f") (auto simp: conversion_fails_def list_ex_iff)

lemma bind_converted_isinstance:
  "Option.bind x (converted TInt py_int_of) = Some v \<Longrightarrow> isinstance v TInt"
  "Option.bind x (converted TFloat (py_float_of float_of_str)) = Some v \<Longrightarrow> isinstance v TFloat"
  by (cases x; auto dest: converted_isinstance)+

lemma numeric_field_types:
  assumes "(f, ty) \<in> set FinancialMetrics_field_types" "ty \<noteq> TStr"
  shows "(f = ''total_users'' \<and> ty = TInt) \<or> (f = ''paid_users'' \<and> ty = TInt) \<or>
         (f = ''total_gmv'' \<and> ty = TFloat) \<or> (f = ''total_profit'' \<and> ty = TFloat) \<or>
         (f = ''avg_revenue_per_user'' \<and> ty = TFloat) \<or>
         (f = ''conversion_rate'' \<and> ty = TFloat)"
proof -
  from assms(1) have "ty = TStr \<or>
         (f = ''total_users'' \<and> ty = TInt) \<or> (f = ''paid_users'' \<and> ty = TInt) \<or>
         (f = ''total_gmv'' \<and> ty = TFloat) \<or> (f = ''total_profit'' \<and> ty = TFloat) \<or>
         (f = ''avg_revenue_per_user'' \<and> ty = TFloat) \<or>
         (f = ''conversion_rate'' \<and> ty = TFloat)"
    unfolding FinancialMetrics_field_types_def list.set insert_iff empty_iff prod.inject
    by (elim disjE conjE) (simp_all only: simp_thms)
  with assms(2) show ?thesis by (simp only: simp_thms)
qed

lemma FinancialMetrics_validate_rejects:
  "FinancialMetrics_validate float_of_str py_str data = Inl ValidationError \<longleftrightarrow>
     missing_required data \<or> coercion_fails float_of_str data \<or>
     negative_after TInt py_int_of (data ''total_users'') \<or>
     negative_after TInt py_int_of (data ''paid_users'') \<or>
     negative_after TFloat (py_float_of float_of_str) (data ''total_gmv'') \<or>
     rate_out_of_range_after float_of_str (data ''conversion_rate'')"
proof -
  let ?pf = "py_float_of float_of_str"
  let ?fl = "[''total_gmv'', ''total_profit'', ''avg_revenue_per_user'', ''conversion_rate'']"
  let ?d1 = "converted_dict TInt py_int_of [''total_users''] data"
  let ?d2 = "converted_dict TInt py_int_of [''paid_users''] ?d1"
  let ?d3 = "converted_dict TFloat ?pf ?fl ?d2"
  let ?ci = "converted TInt py_int_of"
  let ?cf = "converted TFloat ?pf"
  have c2: "conversion_fails TInt py_int_of [''paid_users''] ?d1 =
      conversion_fails TInt py_int_of [''paid_users''] data"
    by (rule conversion_fails_cong) (simp add: converted_dict_def)
  have c3: "conversion_fails TFloat ?pf ?fl ?d2 = conversion_fails TFloat ?pf ?fl data"
    by (rule conversion_fails_cong) (auto simp: converted_dict_def)
  have cf: "coercion_fails float_of_str data \<longleftrightarrow>
      conversion_fails TInt py_int_of [''total_users''] data \<or>
      conversion_fails TInt py_int_of [''paid_users''] data \<or>
      conversion_fails TFloat ?pf ?fl data"
    by (auto simp: coercion_fails_def conversion_fails_def int_fields_def float_fields_def)
  have conv: "(case convert_field TInt py_int_of ''total_users'' data of
        Inl e \<Rightarrow> Inl e
      | Inr data1 \<Rightarrow>
     (case convert_field TInt py_int_of ''paid_users'' data1 of
        Inl e \<Rightarrow> Inl e
      | Inr data2 \<Rightarrow>
     (case convert_fields TFloat ?pf ?fl data2 of
        Inl e \<Rightarrow> Inl e
      | Inr data3 \<Rightarrow> k data3))) =
     (if coercion_fails float_of_str data then Inl ValidationError else k ?d3)" for k :: "dict \<Rightarrow> validation_error + dict"
  proof -
    have s1: "convert_field TInt py_int_of ''total_users'' data =
        (if conversion_fails TInt py_int_of [''total_users''] data then Inl ValidationError
         else Inr ?d1)"
      by (rule convert_field_result)
    have s2: "convert_field TInt py_int_of ''paid_users'' ?d1 =
        (if conversion_fails TInt py_int_of [''paid_users''] data then Inl ValidationError
         else Inr ?d2)"
      by (simp only: convert_field_result c2)
    have "distinct ?fl" by simp
    then have s3: "convert_fields TFloat ?pf ?fl ?d2 =
        (if conversion_fails TFloat ?pf ?fl data then Inl ValidationError else Inr ?d3)"
      by (simp only: convert_fields_result c3)
    show ?thesis
      by (simp add: s1 s2 s3 cf del: convert_fields.simps)
  qed
  show ?thesis
  proof (cases "coercion_fails float_of_str data")
    case True
    then show ?thesis
      unfolding FinancialMetrics_validate_def conv by simp
  next
    case False
    then have nf: "\<not> conversion_fails TInt py_int_of int_fields data"
      "\<not> conversion_fails TFloat ?pf ?fl data"
      by (simp_all add: coercion_fails_def float_fields_def)
    have d3: "?d3 ''total_users'' = Option.bind (data ''total_users'') ?ci"
      "?d3 ''paid_users'' = Option.bind (data ''paid_users'') ?ci"
      "?d3 ''total_gmv'' = Option.bind (data ''total_gmv'') ?cf"
      "?d3 ''total_profit'' = Option.bind (data ''total_profit'') ?cf"
      "?d3 ''avg_revenue_per_user'' = Option.bind (data ''avg_revenue_per_user'') ?cf"
      "?d3 ''conversion_rate'' = Option.bind (data ''conversion_rate'') ?cf"
      "?d3 ''id'' = data ''id''" "?d3 ''created_at'' = data ''created_at''"
      "?d3 ''timestamp'' = data ''timestamp''"
      by (simp_all add: converted_dict_def)
    have none: "Option.bind (data ''total_users'') ?ci = None \<longleftrightarrow> data ''total_users'' = None"
      "Option.bind (data ''paid_users'') ?ci = None \<longleftrightarrow> data ''paid_users'' = None"
      "Option.bind (data ''total_gmv'') ?cf = None \<longleftrightarrow> data ''total_gmv'' = None"
      "Option.bind (data ''total_profit'') ?cf = None \<longleftrightarrow> data ''total_profit'' = None"
      using bind_converted_None[OF nf(1)] bind_converted_None[OF nf(2)]
      by (simp_all add: int_fields_def)
    have missing: "list_ex (\<lambda>field. ?d3 field = None) FinancialMetrics_required_fields \<longleftrightarrow>
        missing_required data"
      unfolding missing_required_def FinancialMetrics_required_fields_def list_ex_Cons_iff list_ex_Nil_iff d3 none
      by simp
    have typed: "isinstance v ty"
      if "(f, ty) \<in> set FinancialMetrics_field_types" "ty \<noteq> TStr" "?d3 f = Some v" for f ty v
    proof -
      from numeric_field_types[OF that(1,2)] show ?thesis
      proof (elim disjE conjE)
        assume a: "f = ''total_users''" "ty = TInt"
        from that(3) have "Option.bind (data ''total_users'') ?ci = Some v"
          unfolding a(1) d3(1) .
        then show ?thesis unfolding a(2) by (rule bind_converted_isinstance(1))
      next
        assume a: "f = ''paid_users''" "ty = TInt"
        from that(3) have "Option.bind (data ''paid_users'') ?ci = Some v"
          unfolding a(1) d3(2) .
        then show ?thesis unfolding a(2) by (rule bind_converted_isinstance(1))
      next
        assume a: "f = ''total_gmv''" "ty = TFloat"
        from that(3) have "Option.bind (data ''total_gmv'') ?cf = Some v"
          unfolding a(1) d3(3) .
        then show ?thesis unfolding a(2) by (rule bind_converted_isinstance(2))
      next
        assume a: "f = ''total_profit''" "ty = TFloat"
        from that(3) have "Option.bind (data ''total_profit'') ?cf = Some v"
          unfolding a(1) d3(4) .
        then show ?thesis unfolding a(2) by (rule bind_converted_isinstance(2))
      next
        assume a: "f = ''avg_revenue_per_user''" "ty = TFloat"
        from that(3) have "Option.bind (data ''avg_revenue_per_user'') ?cf = Some v"
          unfolding a(1) d3(5) .
        then show ?thesis unfolding a(2) by (rule bind_converted_isinstance(2))
      next
        assume a: "f = ''conversion_rate''" "ty = TFloat"
        from that(3) have "Option.bind (data ''conversion_rate'') ?cf = Some v"
          unfolding a(1) d3(6) .
        then show ?thesis unfolding a(2) by (rule bind_converted_isinstance(2))
      qed
    qed
    have "\<exists>d'. check_field_types FinancialMetrics_field_types py_str ?d3 = Inr d' \<and>
        (\<forall>f. (f, TStr) \<notin> set FinancialMetrics_field_types \<longrightarrow> d' f = ?d3 f)"
    proof (rule check_field_types_well_typed)
      show "distinct (map fst FinancialMetrics_field_types)"
        by (simp add: FinancialMetrics_field_types_def)
    next
      fix f ty v
      assume "(f, ty) \<in> set FinancialMetrics_field_types" "ty \<noteq> TStr" "?d3 f = Some v"
      then show "isinstance v ty" by (rule typed)
    qed
    then obtain d4 where d4: "check_field_types FinancialMetrics_field_types py_str ?d3 = Inr d4"
      and same: "\<forall>f. (f, TStr) \<notin> set FinancialMetrics_field_types \<longrightarrow> d4 f = ?d3 f"
      by blast
    have d4n: "d4 ''total_users'' = Option.bind (data ''total_users'') ?ci"
      "d4 ''paid_users'' = Option.bind (data ''paid_users'') ?ci"
      "d4 ''total_gmv'' = Option.bind (data ''total_gmv'') ?cf"
      "d4 ''conversion_rate'' = Option.bind (data ''conversion_rate'') ?cf"
      using same by (simp_all add: FinancialMetrics_field_types_def d3)
    have neg: "is_negative (Option.bind x (converted w cv)) = negative_after w cv x" for x w cv
      by (cases x) (simp_all add: negative_after_def is_negative_def)
    have rate: "rate_out_of_range (Option.bind x ?cf) = rate_out_of_range_after float_of_str x"
      for x
      by (cases x) (simp_all add: rate_out_of_range_after_def rate_out_of_range_def)
    have base: "BaseModel_validate FinancialMetrics_required_fields FinancialMetrics_field_types
        py_str ?d3 = (if missing_required data then Inl ValidationError else Inr d4)"
      by (simp only: BaseModel_validate_def missing d4)
    show ?thesis
      unfolding FinancialMetrics_validate_def conv
      using False by (simp add: base d4n neg rate)
  qed
qed

lemma unparsable_NA: "float_of_digits_and_dots (digits_and_dots ''N/A'') = None"
proof -
  have "digits_and_dots ''N/A'' = []" by code_simp
  then show ?thesis by (simp add: float_of_digits_and_dots_def)
qed

text \<open>
  Claim C7, as stated, fails twice. The scraper's currency conversion replaces the
  unparsable string \<open>N/A\<close> by the default 0.0 and raises nothing. And
  \<open>FinancialMetrics.validate\<close> also rejects a record for a reason the claim does not
  list: a record without \<open>timestamp\<close> is rejected although every number in it is a
  sound, non-negative number.
\<close>

theorem unparsable_currency_gets_default:
  "float_of_digits_and_dots (digits_and_dots ''N/A'') = None \<and>
   convert_currency_to_float ''N/A'' = 0 \<and>
   FinancialMetrics_validate float_of_digits_and_dots py_str_no_floats metrics_without_timestamp =
     Inl ValidationError \<and>
   \<not> coercion_fails float_of_digits_and_dots metrics_without_timestamp \<and>
   \<not> negative_after TInt py_int_of (metrics_without_timestamp ''total_users'') \<and>
   \<not> negative_after TInt py_int_of (metrics_without_timestamp ''paid_users'') \<and>
   \<not> negative_after TFloat (py_float_of float_of_digits_and_dots)
       (metrics_without_timestamp ''total_gmv'') \<and>
   \<not> rate_out_of_range_after float_of_digits_and_dots
       (metrics_without_timestamp ''conversion_rate'')"
proof -
  have m: "missing_required metrics_without_timestamp"
    by (simp add: missing_required_def FinancialMetrics_required_fields_def
        metrics_without_timestamp_def)
  have c: "\<not> coercion_fails float_of_digits_and_dots metrics_without_timestamp"
    by (simp add: coercion_fails_def conversion_fails_def int_fields_def float_fields_def
        metrics_without_timestamp_def converted_def)
  have n: "\<not> negative_after TInt py_int_of (metrics_without_timestamp ''total_users'')"
    "\<not> negative_after TInt py_int_of (metrics_without_timestamp ''paid_users'')"
    "\<not> negative_after TFloat (py_float_of float_of_digits_and_dots)
       (metrics_without_timestamp ''total_gmv'')"
    "\<not> rate_out_of_range_after float_of_digits_and_dots
       (metrics_without_timestamp ''conversion_rate'')"
    by (simp_all add: negative_after_def rate_out_of_range_after_def is_negative_def
        metrics_without_timestamp_def converted_def)
  from m have "FinancialMetrics_validate float_of_digits_and_dots py_str_no_floats
      metrics_without_timestamp = Inl ValidationError"
    by (simp only: FinancialMetrics_validate_rejects simp_thms)
  with c n unparsable_NA show ?thesis
    by (simp add: convert_currency_to_float_def)
qed

text \<open>
  Claim C7, amended. \<open>FinancialMetrics.validate\<close> rejects a record by raising
  \<open>ValidationError\<close> exactly when a required field is missing, or some numeric field
  that is present fails to coerce to a number, or \<open>total_users\<close>, \<open>paid_users\<close> or
  \<open>total_gmv\<close> is negative, or \<open>conversion_rate\<close> is present and outside [0, 100].
  The scraper's \<open>_convert_currency_to_float\<close> never raises: a currency string that
  cannot be parsed as a number is replaced by the default 0.0.
\<close>

theorem financial_validation_rejections:
  "(FinancialMetrics_validate float_of_str py_str data = Inl ValidationError \<longleftrightarrow>
      missing_required data \<or> coercion_fails float_of_str data \<or>
      negative_after TInt py_int_of (data ''total_users'') \<or>
      negative_after TInt py_int_of (data ''paid_users'') \<or>
      negative_after TFloat (py_float_of float_of_str) (data ''total_gmv'') \<or>
      rate_out_of_range_after float_of_str (data ''conversion_rate'')) \<and>
   (float_of_digits_and_dots (digits_and_dots s) = None \<longrightarrow> convert_currency_to_float s = 0)"
  using FinancialMetrics_validate_rejects[of float_of_str py_str data]
  by (simp add: convert_currency_to_float_def)

theorem financial_validation_rejections_witness:
  "coercion_fails float_of_digits_and_dots metrics_with_unparsable_gmv \<and>
   FinancialMetrics_validate float_of_digits_and_dots py_str_no_floats
     metrics_with_unparsable_gmv = Inl ValidationError \<and>
   float_of_digits_and_dots (digits_and_dots ''N/A'') = None \<and>
   convert_currency_to_float ''N/A'' = 0"
proof -
  have "float_of_digits_and_dots ''N/A'' = None"
  proof -
    have "split_at (\<lambda>c. c = CHR ''.'') ''N/A'' = [''N/A'']" "\<not> list_all is_digit ''N/A''"
      by code_simp+
    then show ?thesis by (simp add: float_of_digits_and_dots_def)
  qed
  then have c: "coercion_fails float_of_digits_and_dots metrics_with_unparsable_gmv"
    by (simp add: coercion_fails_def conversion_fails_def float_fields_def
        metrics_with_unparsable_gmv_def converted_def)
  from financial_validation_rejections[of float_of_digits_and_dots py_str_no_floats
      metrics_with_unparsable_gmv "''N/A''"] c unparsable_NA
  show ?thesis by (simp only: simp_thms)
qed

end
